theory Spec2Isabelle
  imports Main
begin

section \<open>JavaScript values and exceptions\<close>

text \<open>
  The helpers of \<^verbatim>\<open>src/utils/index.ts\<close> are glue over the browser: \<^verbatim>\<open>$fetch\<close>,
  \<^verbatim>\<open>JSON.parse\<close>, \<^verbatim>\<open>DOMParser\<close>, the serializer of the DOM, the clock and the random
  generator, \<^verbatim>\<open>mime\<close>. Each of these is a field of a record that the modelled function
  receives as its first argument, so that a theorem about the function holds for every
  behaviour of the platform. The document and the archive are modelled as data: a tree
  of nodes, and a map from names to entries. Strings are byte lists (UTF-8); a thrown
  exception is the \<open>Inl\<close> of a sum. An awaited promise is the value it resolves to, or
  the exception it rejects with: every request of the source is awaited before the next
  statement runs.
\<close>

datatype exn =
    Error string      \<comment> \<open>\<^verbatim>\<open>new Error(message)\<close>\<close>
  | TypeError         \<comment> \<open>a property read or a call on \<^verbatim>\<open>null\<close>/\<^verbatim>\<open>undefined\<close>, a call of a non-function\<close>
  | SyntaxError       \<comment> \<open>\<^verbatim>\<open>JSON.parse\<close> on a text that is not JSON\<close>
  | URIError          \<comment> \<open>\<^verbatim>\<open>encodeURIComponent\<close> on a lone surrogate\<close>
  | FetchError string \<comment> \<open>a rejected \<^verbatim>\<open>$fetch\<close>\<close>

text \<open>
  What \<^verbatim>\<open>JSON.parse\<close> returns is untyped at run time (the annotations
  \<^verbatim>\<open>PublishPage\<close> and \<^verbatim>\<open>PublishInfo\<close> are unchecked casts). \<open>'n\<close> is the carrier of
  JavaScript numbers; an object is the list of its own properties.
\<close>

datatype 'n jsval =
    Undefined
  | Null
  | Bool bool
  | Num 'n
  | Str string
  | Arr "'n jsval list"
  | Obj "(string \<times> 'n jsval) list"

text \<open>
  Modelled from the spec: the declarations of \<^verbatim>\<open>~/types/types\<close> are not among the
  sources. The response of \<^verbatim>\<open>/api/appmsgpublish\<close> is
  \<^verbatim>\<open>{base_resp: {ret, err_msg}, publish_page: <JSON string>}\<close>.
\<close>

record BaseResp =
  ret :: int
  err_msg :: string

record AppMsgPublishResponse =
  base_resp :: BaseResp
  publish_page :: string

text \<open>The query of the request: \<^verbatim>\<open>{id, token, page, size, keyword}\<close>.\<close>

record query =
  query_id :: string
  query_token :: string
  query_page :: int
  query_size :: int
  query_keyword :: string

record 'n runtime =
  fetch_appmsgpublish :: "query \<Rightarrow> exn + AppMsgPublishResponse"
    \<comment> \<open>\<^verbatim>\<open>$fetch<AppMsgPublishResponse>('/api/appmsgpublish', {method: 'GET', query})\<close>\<close>
  JSON_parse :: "string \<Rightarrow> 'n jsval option"
    \<comment> \<open>\<^verbatim>\<open>JSON.parse\<close> on a string; \<open>None\<close> when it throws its SyntaxError\<close>
  ToString :: "'n jsval \<Rightarrow> exn + string"
    \<comment> \<open>the coercion \<^verbatim>\<open>JSON.parse\<close> applies to an argument that is not a string\<close>
  num_truthy :: "'n \<Rightarrow> bool"
    \<comment> \<open>\<^verbatim>\<open>!!n\<close> for a number: neither zero nor NaN\<close>

section \<open>The paginated list fetcher\<close>

definition ToBoolean :: "'n runtime \<Rightarrow> 'n jsval \<Rightarrow> bool" where
  "ToBoolean R v =
     (case v of
        Undefined \<Rightarrow> False
      | Null \<Rightarrow> False
      | Bool b \<Rightarrow> b
      | Num n \<Rightarrow> num_truthy R n
      | Str s \<Rightarrow> s \<noteq> []
      | Arr _ \<Rightarrow> True
      | Obj _ \<Rightarrow> True)"

text \<open>
  The property read \<^verbatim>\<open>v.name\<close>, for the three names the function reads
  (\<^verbatim>\<open>publish_list\<close>, \<^verbatim>\<open>publish_info\<close>, \<^verbatim>\<open>appmsgex\<close>): none of them is a built-in
  property of a string, an array, a number or \<^verbatim>\<open>Object.prototype\<close>.
\<close>

definition get_prop :: "'n jsval \<Rightarrow> string \<Rightarrow> exn + 'n jsval" where
  "get_prop v name =
     (case v of
        Undefined \<Rightarrow> Inl TypeError
      | Null \<Rightarrow> Inl TypeError
      | Obj props \<Rightarrow> Inr (case map_of props name of None \<Rightarrow> Undefined | Some x \<Rightarrow> x)
      | _ \<Rightarrow> Inr Undefined)"

text \<open>\<^verbatim>\<open>JSON.parse(v)\<close> for a value \<open>v\<close> of any type.\<close>

definition JSON_parse_text :: "'n runtime \<Rightarrow> string \<Rightarrow> exn + 'n jsval" where
  "JSON_parse_text R s = (case JSON_parse R s of None \<Rightarrow> Inl SyntaxError | Some v \<Rightarrow> Inr v)"

definition JSON_parse_value :: "'n runtime \<Rightarrow> 'n jsval \<Rightarrow> exn + 'n jsval" where
  "JSON_parse_value R v =
     (case v of
        Str s \<Rightarrow> JSON_parse_text R s
      | _ \<Rightarrow> (case ToString R v of Inl e \<Rightarrow> Inl e | Inr s \<Rightarrow> JSON_parse_text R s))"

text \<open>
  \<^verbatim>\<open>publish_page.publish_list.filter(item => !!item.publish_info)\<close>: the callback runs on
  the items in order, and the first one that throws ends the call.
\<close>

fun filter_publish_info :: "'n runtime \<Rightarrow> 'n jsval list \<Rightarrow> exn + 'n jsval list" where
  "filter_publish_info R [] = Inr []"
| "filter_publish_info R (item # items) =
     (case get_prop item ''publish_info'' of
        Inl e \<Rightarrow> Inl e
      | Inr info \<Rightarrow>
          (case filter_publish_info R items of
             Inl e \<Rightarrow> Inl e
           | Inr rest \<Rightarrow> Inr (if ToBoolean R info then item # rest else rest)))"

text \<open>
  \<^verbatim>\<open>publish_list.flatMap(item => JSON.parse(item.publish_info).appmsgex)\<close>: what the
  callback returns is spliced in when it is an array and added as one element otherwise.
\<close>

definition flatten_one :: "'n jsval \<Rightarrow> 'n jsval list" where
  "flatten_one v = (case v of Arr xs \<Rightarrow> xs | _ \<Rightarrow> [v])"

fun flatMap_appmsgex :: "'n runtime \<Rightarrow> 'n jsval list \<Rightarrow> exn + 'n jsval list" where
  "flatMap_appmsgex R [] = Inr []"
| "flatMap_appmsgex R (item # items) =
     (case get_prop item ''publish_info'' of
        Inl e \<Rightarrow> Inl e
      | Inr text \<Rightarrow>
          (case JSON_parse_value R text of
             Inl e \<Rightarrow> Inl e
           | Inr publish_info \<Rightarrow>
               (case get_prop publish_info ''appmsgex'' of
                  Inl e \<Rightarrow> Inl e
                | Inr appmsgex \<Rightarrow>
                    (case flatMap_appmsgex R items of
                       Inl e \<Rightarrow> Inl e
                     | Inr rest \<Rightarrow> Inr (flatten_one appmsgex @ rest)))))"

definition list_query :: "string \<Rightarrow> string \<Rightarrow> int option \<Rightarrow> string option \<Rightarrow> query" where
  "list_query fakeid token page keyword =
     \<lparr>query_id = fakeid, query_token = token,
      query_page = (case page of None \<Rightarrow> 1 | Some p \<Rightarrow> p),
      query_size = 20,
      query_keyword = (case keyword of None \<Rightarrow> [] | Some k \<Rightarrow> k)\<rparr>"

definition getArticleList ::
  "'n runtime \<Rightarrow> string \<Rightarrow> string \<Rightarrow> int option \<Rightarrow> string option \<Rightarrow> exn + 'n jsval list" where
  "getArticleList R fakeid token page keyword =
     (case fetch_appmsgpublish R (list_query fakeid token page keyword) of
        Inl e \<Rightarrow> Inl e
      | Inr resp \<Rightarrow>
          if ret (base_resp resp) = 0 then
            (case JSON_parse_text R (publish_page resp) of
               Inl e \<Rightarrow> Inl e
             | Inr page_obj \<Rightarrow>
                 (case get_prop page_obj ''publish_list'' of
                    Inl e \<Rightarrow> Inl e
                  | Inr (Arr items) \<Rightarrow>
                      (case filter_publish_info R items of
                         Inl e \<Rightarrow> Inl e
                       | Inr publish_list \<Rightarrow>
                           if length publish_list = 0 then Inr []
                           else flatMap_appmsgex R publish_list)
                  | Inr _ \<Rightarrow> Inl TypeError))
          else if ret (base_resp resp) = 200003 then Inl (Error ''session expired'')
          else Inl (Error (err_msg (base_resp resp))))"

section \<open>The document\<close>

text \<open>
  A parsed HTML document is the tree of its nodes. An element carries its tag name and its
  attributes in source order, with the names the HTML parser gives them (lower case for
  the elements and attributes of HTML). A node
  is addressed by its path, the positions of the children to walk from the root: the
  handles that \<^verbatim>\<open>querySelector\<close> and \<^verbatim>\<open>querySelectorAll\<close> return.
\<close>

datatype node =
    Element string "(string \<times> string) list" "node list"
  | Text string
  | Comment string

type_synonym path = "nat list"

definition getAttribute :: "node \<Rightarrow> string \<Rightarrow> string option" where
  "getAttribute n name = (case n of Element _ attrs _ \<Rightarrow> map_of attrs name | _ \<Rightarrow> None)"

fun set_attr :: "string \<Rightarrow> string \<Rightarrow> (string \<times> string) list \<Rightarrow> (string \<times> string) list" where
  "set_attr name v [] = [(name, v)]"
| "set_attr name v ((k, w) # attrs) =
     (if k = name then (k, v) # attrs else (k, w) # set_attr name v attrs)"

definition setAttribute :: "string \<Rightarrow> string \<Rightarrow> node \<Rightarrow> node" where
  "setAttribute name v n =
     (case n of Element tag attrs children \<Rightarrow> Element tag (set_attr name v attrs) children | _ \<Rightarrow> n)"

definition removeAttribute :: "string \<Rightarrow> node \<Rightarrow> node" where
  "removeAttribute name n =
     (case n of
        Element tag attrs children \<Rightarrow> Element tag (filter (\<lambda>(k, w). k \<noteq> name) attrs) children
      | _ \<Rightarrow> n)"

text \<open>
  The simple selectors of the source: \<^verbatim>\<open>#id\<close>, \<^verbatim>\<open>script\<close>, \<^verbatim>\<open>img[src]\<close>. A document
  without a doctype is in quirks mode, where an id selector matches the \<^verbatim>\<open>id\<close> of an
  element whatever the case of its ASCII letters; in the other modes it matches the equal
  \<^verbatim>\<open>id\<close> only.
\<close>

definition ascii_lower :: "char \<Rightarrow> char" where
  "ascii_lower c =
     (case map_of (zip ''ABCDEFGHIJKLMNOPQRSTUVWXYZ'' ''abcdefghijklmnopqrstuvwxyz'') c of
        Some l \<Rightarrow> l
      | None \<Rightarrow> c)"

definition same_ignoring_case :: "string \<Rightarrow> string \<Rightarrow> bool" where
  "same_ignoring_case a b = (map ascii_lower a = map ascii_lower b)"

definition has_id :: "bool \<Rightarrow> string \<Rightarrow> node \<Rightarrow> bool" where
  "has_id quirks_mode i n =
     (case getAttribute n ''id'' of
        None \<Rightarrow> False
      | Some v \<Rightarrow> if quirks_mode then same_ignoring_case v i else v = i)"

definition has_tag :: "string \<Rightarrow> node \<Rightarrow> bool" where
  "has_tag t n = (case n of Element tag _ _ \<Rightarrow> tag = t | _ \<Rightarrow> False)"

definition img_with_src :: "node \<Rightarrow> bool" where
  "img_with_src n = (has_tag ''img'' n \<and> getAttribute n ''src'' \<noteq> None)"

text \<open>
  The first match in document order, and all matches in document order: \<open>first_path\<close>
  and \<open>all_paths\<close> look at the node itself and below it, \<open>first_in\<close> and \<open>all_in\<close>
  at a list of siblings, the first of which has position \<open>i\<close>.
\<close>

fun first_path :: "(node \<Rightarrow> bool) \<Rightarrow> node \<Rightarrow> path option"
  and first_in :: "(node \<Rightarrow> bool) \<Rightarrow> nat \<Rightarrow> node list \<Rightarrow> path option" where
  "first_path P (Element tag attrs children) =
     (if P (Element tag attrs children) then Some [] else first_in P 0 children)"
| "first_path P (Text t) = (if P (Text t) then Some [] else None)"
| "first_path P (Comment t) = (if P (Comment t) then Some [] else None)"
| "first_in P i [] = None"
| "first_in P i (c # cs) =
     (case first_path P c of Some p \<Rightarrow> Some (i # p) | None \<Rightarrow> first_in P (Suc i) cs)"

fun all_paths :: "(node \<Rightarrow> bool) \<Rightarrow> node \<Rightarrow> path list"
  and all_in :: "(node \<Rightarrow> bool) \<Rightarrow> nat \<Rightarrow> node list \<Rightarrow> path list" where
  "all_paths P (Element tag attrs children) =
     (if P (Element tag attrs children) then [[]] else []) @ all_in P 0 children"
| "all_paths P (Text t) = (if P (Text t) then [[]] else [])"
| "all_paths P (Comment t) = (if P (Comment t) then [[]] else [])"
| "all_in P i [] = []"
| "all_in P i (c # cs) = map ((#) i) (all_paths P c) @ all_in P (Suc i) cs"

text \<open>
  \<^verbatim>\<open>document.querySelector\<close> searches every element of the document,
  \<^verbatim>\<open>element.querySelector\<close> and \<^verbatim>\<open>element.querySelectorAll\<close> the descendants of the
  element only.
\<close>

definition document_querySelector :: "(node \<Rightarrow> bool) \<Rightarrow> node \<Rightarrow> path option" where
  "document_querySelector P root = first_path P root"

definition querySelector :: "(node \<Rightarrow> bool) \<Rightarrow> node \<Rightarrow> path option" where
  "querySelector P n = (case n of Element _ _ children \<Rightarrow> first_in P 0 children | _ \<Rightarrow> None)"

definition querySelectorAll :: "(node \<Rightarrow> bool) \<Rightarrow> node \<Rightarrow> path list" where
  "querySelectorAll P n = (case n of Element _ _ children \<Rightarrow> all_in P 0 children | _ \<Rightarrow> [])"

fun node_at :: "node \<Rightarrow> path \<Rightarrow> node option" where
  "node_at n [] = Some n"
| "node_at (Element tag attrs children) (i # p) =
     (if i < length children then node_at (children ! i) p else None)"
| "node_at (Text t) (i # p) = None"
| "node_at (Comment t) (i # p) = None"

fun update_at :: "(node \<Rightarrow> node) \<Rightarrow> path \<Rightarrow> node \<Rightarrow> node" where
  "update_at f [] n = f n"
| "update_at f (i # p) (Element tag attrs children) =
     (if i < length children
      then Element tag attrs (children[i := update_at f p (children ! i)])
      else Element tag attrs children)"
| "update_at f (i # p) (Text t) = Text t"
| "update_at f (i # p) (Comment t) = Comment t"

text \<open>\<^verbatim>\<open>el.remove()\<close> for the element at a path: its parent loses that child.\<close>

fun remove_at :: "path \<Rightarrow> node \<Rightarrow> node" where
  "remove_at [] n = n"
| "remove_at [i] (Element tag attrs children) =
     Element tag attrs (take i children @ drop (Suc i) children)"
| "remove_at (i # j # p) (Element tag attrs children) =
     (if i < length children
      then Element tag attrs (children[i := remove_at (j # p) (children ! i)])
      else Element tag attrs children)"
| "remove_at (i # p) (Text t) = Text t"
| "remove_at (i # p) (Comment t) = Comment t"

text \<open>
  \<^verbatim>\<open>querySelectorAll(sel).forEach(el => el.remove())\<close>: every descendant that matches
  leaves its parent, and so does all that is below it.
\<close>

fun remove_all :: "(node \<Rightarrow> bool) \<Rightarrow> node \<Rightarrow> node" where
  "remove_all P (Element tag attrs children) =
     Element tag attrs (map (remove_all P) (filter (\<lambda>c. \<not> P c) children))"
| "remove_all P (Text t) = Text t"
| "remove_all P (Comment t) = Comment t"

section \<open>The browser\<close>

text \<open>
  What \<^verbatim>\<open>DOMParser\<close> returns: the root element of the document, and whether the document
  is in quirks mode.
\<close>

record document =
  quirks :: bool
  documentElement :: node

record blob =
  blob_type :: string
  blob_bytes :: string

datatype log_entry =
    Info "string list"   \<comment> \<open>\<^verbatim>\<open>console.info(...)\<close>\<close>
  | Warn "string list"   \<comment> \<open>\<^verbatim>\<open>console.warn(...)\<close>\<close>
  | Logged exn           \<comment> \<open>\<^verbatim>\<open>console.error(e)\<close>\<close>

text \<open>
  What the two helpers over HTML take from their environment. \<open>fetch_text\<close> and
  \<open>fetch_blob\<close> are \<^verbatim>\<open>$fetch\<close> at the two types at which the source calls it; a request
  returns the same answer whenever it is made during one call. \<open>uuid B k\<close> is the
  \<open>k\<close>-th value of \<^verbatim>\<open>new Date().getTime() + Math.random().toString()\<close> drawn during the
  call.
\<close>

record browser =
  encodeURIComponent :: "string \<Rightarrow> exn + string"
  fetch_text :: "string \<Rightarrow> exn + string"
    \<comment> \<open>\<^verbatim>\<open>$fetch<string>(url)\<close>\<close>
  fetch_blob :: "string \<Rightarrow> exn + blob"
    \<comment> \<open>\<^verbatim>\<open>$fetch<Blob>(url)\<close>\<close>
  parseFromString :: "string \<Rightarrow> document"
    \<comment> \<open>\<^verbatim>\<open>new DOMParser().parseFromString(html, 'text/html')\<close>\<close>
  outerHTML :: "node \<Rightarrow> string"
    \<comment> \<open>the HTML serialization of an element\<close>
  resolve_url :: "string \<Rightarrow> string"
    \<comment> \<open>what \<^verbatim>\<open>img.src\<close> and \<^verbatim>\<open>link.href\<close> return for the value of the attribute\<close>
  uuid :: "nat \<Rightarrow> string"
  getExtension :: "string \<Rightarrow> string option"
    \<comment> \<open>\<^verbatim>\<open>mime.getExtension(type)\<close>; \<open>None\<close> is \<^verbatim>\<open>null\<close>\<close>
  parent_folders :: "string \<Rightarrow> string list"
    \<comment> \<open>the folders JSZip creates for a file name, where they do not exist\<close>

text \<open>The messages of the source, as the bytes of their UTF-8 encoding.\<close>

definition msg_download_failed :: string where
  "msg_download_failed =
     [CHR 0xE4, CHR 0xB8, CHR 0x8B, CHR 0xE8, CHR 0xBD, CHR 0xBD, CHR 0xE5, CHR 0xA4,
      CHR 0xB1, CHR 0xE8, CHR 0xB4, CHR 0xA5, CHR 0xEF, CHR 0xBC, CHR 0x8C, CHR 0xE8,
      CHR 0xAF, CHR 0xB7, CHR 0xE9, CHR 0x87, CHR 0x8D, CHR 0xE8, CHR 0xAF, CHR 0x95]"

definition msg_empty_src :: string where
  "msg_empty_src =
     ''img'' @ [CHR 0xE5, CHR 0x85, CHR 0x83, CHR 0xE7, CHR 0xB4, CHR 0xA0, CHR 0xE7,
      CHR 0x9A, CHR 0x84] @ ''src'' @ [CHR 0xE4, CHR 0xB8, CHR 0xBA, CHR 0xE7, CHR 0xA9,
      CHR 0xBA]"

definition msg_img_failed :: string where
  "msg_img_failed =
     [CHR 0xE5, CHR 0x9B, CHR 0xBE, CHR 0xE7, CHR 0x89, CHR 0x87, CHR 0xE4, CHR 0xB8,
      CHR 0x8B, CHR 0xE8, CHR 0xBD, CHR 0xBD, CHR 0xE5, CHR 0xA4, CHR 0xB1, CHR 0xE8,
      CHR 0xB4, CHR 0xA5] @ '': ''"

definition msg_bg_failed :: string where
  "msg_bg_failed =
     [CHR 0xE8, CHR 0x83, CHR 0x8C, CHR 0xE6, CHR 0x99, CHR 0xAF, CHR 0xE5, CHR 0x9B,
      CHR 0xBE, CHR 0xE7, CHR 0x89, CHR 0x87, CHR 0xE4, CHR 0xB8, CHR 0x8B, CHR 0xE8,
      CHR 0xBD, CHR 0xBD, CHR 0xE5, CHR 0xA4, CHR 0xB1, CHR 0xE8, CHR 0xB4, CHR 0xA5] @
      '': ''"

definition msg_bg_lost :: string where
  "msg_bg_lost =
     [CHR 0xE8, CHR 0x83, CHR 0x8C, CHR 0xE6, CHR 0x99, CHR 0xAF, CHR 0xE5, CHR 0x9B,
      CHR 0xBE, CHR 0xE7, CHR 0x89, CHR 0x87, CHR 0xE4, CHR 0xB8, CHR 0xA2, CHR 0xE5,
      CHR 0xA4, CHR 0xB1] @ '': ''"

definition msg_css_failed :: string where
  "msg_css_failed =
     [CHR 0xE6, CHR 0xA0, CHR 0xB7, CHR 0xE5, CHR 0xBC, CHR 0x8F, CHR 0xE8, CHR 0xA1,
      CHR 0xA8, CHR 0xE4, CHR 0xB8, CHR 0x8B, CHR 0xE8, CHR 0xBD, CHR 0xBD, CHR 0xE5,
      CHR 0xA4, CHR 0xB1, CHR 0xE8, CHR 0xB4, CHR 0xA5] @ '': ''"

section \<open>The article downloader\<close>

text \<open>
  The result is what the call prints on the console and what it returns or throws.
  \<^verbatim>\<open>if (title)\<close> holds for a title that is given and not empty.
\<close>

definition downloadArticleHTML ::
  "browser \<Rightarrow> string \<Rightarrow> string option \<Rightarrow> log_entry list \<times> (exn + string)" where
  "downloadArticleHTML B articleURL title =
     (case encodeURIComponent B articleURL of
        Inl e \<Rightarrow> ([], Inl e)
      | Inr encoded \<Rightarrow>
          (case fetch_text B (''/api/download?url='' @ encoded) of
             Inl e \<Rightarrow> ([], Inl e)
           | Inr fullHTML \<Rightarrow>
               (let document = parseFromString B fullHTML in
                case document_querySelector (has_id (quirks document) ''page-content'')
                       (documentElement document) of
                  None \<Rightarrow>
                    ((case title of
                        None \<Rightarrow> []
                      | Some t \<Rightarrow> if t \<noteq> [] then [Info [t]] else []),
                     Inl (Error msg_download_failed))
                | Some pageContent \<Rightarrow> ([], Inr fullHTML))))"

section \<open>The archive\<close>

text \<open>
  A JSZip object is the map from the names of its entries to the entries. \<^verbatim>\<open>zip.file\<close>
  adds the file or replaces the entry of that name, after creating the folders above it
  that do not exist; \<^verbatim>\<open>zip.folder\<close> creates a folder unless the entry exists.
\<close>

datatype content = BlobData blob | TextData string

datatype entry = Dir | File content

type_synonym archive = "string \<Rightarrow> entry option"

definition folderAdd :: "string \<Rightarrow> archive \<Rightarrow> archive" where
  "folderAdd name z = (if z name = None then z(name \<mapsto> Dir) else z)"

definition zip_folder :: "archive \<Rightarrow> string \<Rightarrow> archive" where
  "zip_folder z name = folderAdd (name @ ''/'') z"

definition zip_file :: "browser \<Rightarrow> archive \<Rightarrow> string \<Rightarrow> content \<Rightarrow> archive" where
  "zip_file B z name data = (fold folderAdd (parent_folders B name) z)(name \<mapsto> File data)"

section \<open>The pattern of a background image\<close>

text \<open>
  The regular expression of the source, with its three groups:
  \<^verbatim>\<open>((?:background|background-image): url\((?:&quot;)?)((?:https?|\/\/)[^)]+?)((?:&quot;)?\))\<close>.
  The second group ends at the first closing parenthesis, and its lazy quantifier leaves
  a final \<^verbatim>\<open>&quot;\<close> to the third group whenever a character remains for itself.
\<close>

definition strip_prefix :: "string \<Rightarrow> string \<Rightarrow> string option" where
  "strip_prefix p s = (if take (length p) s = p then Some (drop (length p) s) else None)"

text \<open>\<^verbatim>\<open>[^)]+?\<close> and the third group, after the scheme \<open>sch\<close>: the URL and the third group.\<close>

definition match_url_end :: "string \<Rightarrow> string \<Rightarrow> (string \<times> string) option" where
  \<open>match_url_end sch s =
     (let body = takeWhile (\<lambda>c. c \<noteq> CHR '')'') s in
      if length body = length s then None
      else if 6 < length body \<and> drop (length body - 6) body = ''&quot;''
      then Some (sch @ take (length body - 6) body, ''&quot;)'')
      else if body \<noteq> [] then Some (sch @ body, '')'')
      else None)\<close>

text \<open>
  \<^verbatim>\<open>(?:https?|\/\/)\<close>: the \<^verbatim>\<open>s\<close> is taken when it is there, and given back when nothing
  but the closing parenthesis follows it.
\<close>

definition match_url :: "string \<Rightarrow> (string \<times> string) option" where
  "match_url s =
     (case strip_prefix ''http'' s of
        Some r \<Rightarrow>
          (case strip_prefix ''s'' r of
             Some r' \<Rightarrow>
               (case match_url_end ''https'' r' of
                  Some m \<Rightarrow> Some m
                | None \<Rightarrow> match_url_end ''http'' r)
           | None \<Rightarrow> match_url_end ''http'' r)
      | None \<Rightarrow>
          (case strip_prefix ''//'' s of
             Some r \<Rightarrow> match_url_end ''//'' r
           | None \<Rightarrow> None))"

definition match_head :: "string \<Rightarrow> (string \<times> string) option" where
  "match_head s =
     (case strip_prefix ''background: url('' s of
        Some r \<Rightarrow> Some (''background: url('', r)
      | None \<Rightarrow>
          (case strip_prefix ''background-image: url('' s of
             Some r \<Rightarrow> Some (''background-image: url('', r)
           | None \<Rightarrow> None))"

text \<open>A match at the start of the text: the three groups.\<close>

definition match_bg :: "string \<Rightarrow> (string \<times> string \<times> string) option" where
  \<open>match_bg s =
     (case match_head s of
        None \<Rightarrow> None
      | Some (head, r) \<Rightarrow>
          (case strip_prefix ''&quot;'' r of
             Some r' \<Rightarrow>
               (case match_url r' of
                  Some (url, p3) \<Rightarrow> Some (head @ ''&quot;'', url, p3)
                | None \<Rightarrow>
                    (case match_url r of
                       Some (url, p3) \<Rightarrow> Some (head, url, p3)
                     | None \<Rightarrow> None))
           | None \<Rightarrow>
               (case match_url r of
                  Some (url, p3) \<Rightarrow> Some (head, url, p3)
                | None \<Rightarrow> None)))\<close>

text \<open>
  The matches of the global expression, from left to right: the text is cut into its
  matches and the characters between them. After a match the scan resumes behind it.
\<close>

datatype seg = Plain char | BgRef string string string

fun bg_scan :: "string \<Rightarrow> seg list" where
  "bg_scan [] = []"
| "bg_scan (c # cs) =
     (case match_bg (c # cs) of
        Some (p1, url, p3) \<Rightarrow> BgRef p1 url p3 # bg_scan (drop (length (p1 @ url @ p3) - 1) cs)
      | None \<Rightarrow> Plain c # bg_scan cs)"

text \<open>
  \<^verbatim>\<open>str.replaceAll(regex, f)\<close>: every match is replaced by what \<open>f\<close> returns for its
  groups.
\<close>

definition replaceAll_bg :: "(string \<Rightarrow> string \<Rightarrow> string \<Rightarrow> string) \<Rightarrow> string \<Rightarrow> string" where
  "replaceAll_bg f s =
     concat (map (\<lambda>g. case g of Plain c \<Rightarrow> [c] | BgRef p1 url p3 \<Rightarrow> f p1 url p3) (bg_scan s))"

text \<open>The URLs of the matches, as the \<^verbatim>\<open>Set\<close> collects them: each once, in the order of
  their first occurrence.\<close>

definition set_add :: "string \<Rightarrow> string list \<Rightarrow> string list" where
  "set_add url urls = (if url \<in> set urls then urls else urls @ [url])"

definition bgImageURLs :: "string \<Rightarrow> string list" where
  "bgImageURLs s =
     fold (\<lambda>g urls. case g of Plain c \<Rightarrow> urls | BgRef p1 url p3 \<Rightarrow> set_add url urls) (bg_scan s) []"

section \<open>The asset packager\<close>

text \<open>
  The state of a call: the content container as the call has changed it, the archive,
  the number of names drawn so far, the requests made so far, what was printed on the
  console, and the local variables \<^verbatim>\<open>url2pathMap\<close>, \<^verbatim>\<open>pageContentHTML\<close> and
  \<^verbatim>\<open>localLinks\<close>.
\<close>

record pack_state =
  pageContent :: node
  jszip :: archive
  draws :: nat
  requests :: "string list"
  console :: "log_entry list"
  url2pathMap :: "string \<Rightarrow> string option"
  pageContentHTML :: string
  localLinks :: string

definition asset_path :: "string \<Rightarrow> string option \<Rightarrow> string" where
  "asset_path name ext = ''assets/'' @ name @ ''.'' @ (case ext of None \<Rightarrow> ''null'' | Some e \<Rightarrow> e)"

definition attr_at :: "node \<Rightarrow> path \<Rightarrow> string \<Rightarrow> string option" where
  "attr_at c p name = (case node_at c p of Some n \<Rightarrow> getAttribute n name | None \<Rightarrow> None)"

text \<open>\<^verbatim>\<open>img.src\<close> and \<^verbatim>\<open>link.href\<close>: empty without the attribute, its URL otherwise.\<close>

definition url_property :: "browser \<Rightarrow> string option \<Rightarrow> string" where
  "url_property B attr = (case attr of None \<Rightarrow> [] | Some v \<Rightarrow> resolve_url B v)"

text \<open>
  \<^verbatim>\<open>document.querySelector('#page-content')\<close>: the handle of the element and the
  element, or nothing.
\<close>

definition page_content_of :: "document \<Rightarrow> (path \<times> node) option" where
  "page_content_of d =
     (case document_querySelector (has_id (quirks d) ''page-content'') (documentElement d) of
        None \<Rightarrow> None
      | Some pc \<Rightarrow> (case node_at (documentElement d) pc of None \<Rightarrow> None | Some n \<Rightarrow> Some (pc, n)))"

text \<open>
  The removals at the head of the function, in a document whose mode is \<open>q\<close> (quirks
  mode or not).
\<close>

definition remove_style :: "bool \<Rightarrow> node \<Rightarrow> node" where
  "remove_style q c =
     (case querySelector (has_id q ''js_content'') c of
        None \<Rightarrow> c
      | Some p \<Rightarrow> update_at (removeAttribute ''style'') p c)"

definition remove_first :: "bool \<Rightarrow> string \<Rightarrow> node \<Rightarrow> node" where
  "remove_first q i c =
     (case querySelector (has_id q i) c of None \<Rightarrow> c | Some p \<Rightarrow> remove_at p c)"

definition clean :: "bool \<Rightarrow> node \<Rightarrow> node" where
  "clean q c =
     (let c1 = remove_style q c;
          c2 = remove_first q ''js_tags_preview_toast'' c1;
          c3 = remove_first q ''content_bottom_area'' c2;
          c4 = remove_first q ''js_temp_bottom_area'' c3
      in remove_all (has_tag ''script'') c4)"

text \<open>The body of the loop over the images, for the image at path \<open>p\<close> of the content.\<close>

definition img_step :: "browser \<Rightarrow> path \<Rightarrow> pack_state \<Rightarrow> pack_state" where
  "img_step B p st =
     (let src = url_property B (attr_at (pageContent st) p ''src'') in
      if src = [] then st\<lparr>console := console st @ [Warn [msg_empty_src]]\<rparr>
      else
        (case fetch_blob B src of
           Inr imgData \<Rightarrow>
             let path = asset_path (uuid B (draws st)) (getExtension B (blob_type imgData)) in
             st\<lparr>pageContent := update_at (setAttribute ''src'' (''./'' @ path)) p (pageContent st),
                jszip := zip_file B (jszip st) path (BlobData imgData),
                draws := Suc (draws st),
                requests := requests st @ [src]\<rparr>
         | Inl e \<Rightarrow>
             st\<lparr>requests := requests st @ [src],
                console := console st @ [Info [msg_img_failed, src], Logged e]\<rparr>))"

definition download_images :: "browser \<Rightarrow> pack_state \<Rightarrow> pack_state" where
  "download_images B st = fold (img_step B) (querySelectorAll img_with_src (pageContent st)) st"

text \<open>The body of the loop over the background images, and the two passes around it.\<close>

definition bg_step :: "browser \<Rightarrow> string \<Rightarrow> pack_state \<Rightarrow> pack_state" where
  "bg_step B url st =
     (case fetch_blob B url of
        Inr imgData \<Rightarrow>
          let path = asset_path (uuid B (draws st)) (getExtension B (blob_type imgData)) in
          st\<lparr>jszip := zip_file B (jszip st) path (BlobData imgData),
             draws := Suc (draws st),
             requests := requests st @ [url],
             url2pathMap := (url2pathMap st)(url \<mapsto> path)\<rparr>
      | Inl e \<Rightarrow>
          st\<lparr>requests := requests st @ [url],
             console := console st @ [Info [msg_bg_failed, url], Logged e]\<rparr>)"

definition rewrite_bg :: "(string \<Rightarrow> string option) \<Rightarrow> string \<Rightarrow> string \<Rightarrow> string \<Rightarrow> string" where
  "rewrite_bg m p1 url p3 =
     (case m url of Some path \<Rightarrow> p1 @ ''./'' @ path @ p3 | None \<Rightarrow> p1 @ url @ p3)"

definition lost_warnings :: "(string \<Rightarrow> string option) \<Rightarrow> string \<Rightarrow> log_entry list" where
  "lost_warnings m s =
     concat (map (\<lambda>g. case g of
                        Plain c \<Rightarrow> []
                      | BgRef p1 url p3 \<Rightarrow> if m url = None then [Warn [msg_bg_lost, url]] else [])
                 (bg_scan s))"

definition download_backgrounds :: "browser \<Rightarrow> pack_state \<Rightarrow> pack_state" where
  "download_backgrounds B st =
     (let st1 = st\<lparr>pageContentHTML := outerHTML B (pageContent st)\<rparr>;
          st2 = fold (bg_step B) (bgImageURLs (pageContentHTML st1)) st1
      in st2\<lparr>pageContentHTML := replaceAll_bg (rewrite_bg (url2pathMap st2)) (pageContentHTML st2),
             console := console st2 @ lost_warnings (url2pathMap st2) (pageContentHTML st2)\<rparr>)"

text \<open>
  \<^verbatim>\<open>document.querySelectorAll('head link[rel="stylesheet"]')\<close>: the matching elements
  below a \<^verbatim>\<open>head\<close> element, in document order. In an HTML document the value of
  \<^verbatim>\<open>rel\<close> matches whatever the case of its ASCII letters.
\<close>

definition rel_stylesheet :: "(string \<times> string) list \<Rightarrow> bool" where
  "rel_stylesheet attrs =
     (case map_of attrs ''rel'' of None \<Rightarrow> False | Some v \<Rightarrow> same_ignoring_case v ''stylesheet'')"

fun head_links :: "bool \<Rightarrow> node \<Rightarrow> node list" where
  "head_links inside (Element tag attrs children) =
     (if inside \<and> tag = ''link'' \<and> rel_stylesheet attrs
      then [Element tag attrs children] else []) @
     concat (map (head_links (inside \<or> tag = ''head'')) children)"
| "head_links inside (Text t) = []"
| "head_links inside (Comment t) = []"

definition css_step :: "browser \<Rightarrow> node \<Rightarrow> pack_state \<Rightarrow> pack_state" where
  \<open>css_step B link st =
     (let url = url_property B (getAttribute link ''href'') in
      case fetch_text B url of
        Inr stylesheet \<Rightarrow>
          let name = uuid B (draws st) in
          st\<lparr>jszip := zip_file B (jszip st) (''assets/'' @ name @ ''.css'') (TextData stylesheet),
             draws := Suc (draws st),
             requests := requests st @ [url],
             localLinks := localLinks st @ ''<link rel="stylesheet" href="./assets/'' @ name @ ''.css">''\<rparr>
      | Inl e \<Rightarrow>
          st\<lparr>requests := requests st @ [url],
             console := console st @ [Info [msg_css_failed, url], Logged e]\<rparr>)\<close>

definition download_stylesheets :: "browser \<Rightarrow> node \<Rightarrow> pack_state \<Rightarrow> pack_state" where
  "download_stylesheets B document st = fold (css_step B) (head_links False document) st"

text \<open>The three pieces of the template of \<^verbatim>\<open>index.html\<close>.\<close>

definition index_head :: string where
  \<open>index_head =
     ''<!DOCTYPE html>\<newline>'' @
     ''<html lang="zh_CN">\<newline>'' @
     ''<head>\<newline>'' @
     ''    <meta charset="utf-8">\<newline>'' @
     ''    <meta http-equiv="Content-Type" content="text/html; charset=utf-8">\<newline>'' @
     ''    <meta http-equiv="X-UA-Compatible" content="IE=edge">\<newline>'' @
     ''    <meta name="viewport" content="width=device-width,initial-scale=1.0,maximum-scale=1.0,user-scalable=0,viewport-fit=cover">\<newline>'' @
     ''    ''\<close>

definition index_middle :: string where
  \<open>index_middle =
     ''\<newline>'' @
     ''    <style>\<newline>'' @
     ''        #page-content {\<newline>'' @
     ''            max-width: 667px;\<newline>'' @
     ''            margin: 0 auto;\<newline>'' @
     ''        }\<newline>'' @
     ''        img {\<newline>'' @
     ''            max-width: 100%;\<newline>'' @
     ''        }\<newline>'' @
     ''    </style>\<newline>'' @
     ''</head>\<newline>'' @
     ''<body>\<newline>''\<close>

definition index_tail :: string where
  \<open>index_tail =
     ''\<newline>'' @
     ''</body>\<newline>'' @
     ''</html>''\<close>

definition indexHTML :: "string \<Rightarrow> string \<Rightarrow> string" where
  "indexHTML links html = index_head @ links @ index_middle @ html @ index_tail"

text \<open>
  The state in which the loops start: the content without the removed elements, and the
  archive that was passed, or a new one, with its \<^verbatim>\<open>assets\<close> folder.
\<close>

definition initial_state :: "node \<Rightarrow> archive option \<Rightarrow> pack_state" where
  "initial_state content zip_arg =
     \<lparr>pageContent = content,
      jszip = zip_folder (case zip_arg of None \<Rightarrow> Map.empty | Some z \<Rightarrow> z) ''assets'',
      draws = 0, requests = [], console = [],
      url2pathMap = Map.empty, pageContentHTML = [], localLinks = []\<rparr>"

text \<open>
  The call once the container is found: the removals, the three loops, and
  \<^verbatim>\<open>index.html\<close> at the end. \<open>pc\<close> is the handle of the container in the document \<open>d\<close>,
  \<open>n\<close> the container.
\<close>

definition pack_content :: "browser \<Rightarrow> document \<Rightarrow> path \<Rightarrow> node \<Rightarrow> archive option \<Rightarrow> pack_state" where
  "pack_content B d pc n zip_arg =
     (let st1 = download_images B (initial_state (clean (quirks d) n) zip_arg);
          st2 = download_backgrounds B st1;
          st3 = download_stylesheets B (update_at (\<lambda>x. pageContent st2) pc (documentElement d)) st2
      in st3\<lparr>jszip :=
             zip_file B (jszip st3) ''index.html''
               (TextData (indexHTML (localLinks st3) (pageContentHTML st3)))\<rparr>)"

text \<open>
  The function returns the archive of the state it ends in. Without the container,
  \<^verbatim>\<open>$pageContent\<close> is \<^verbatim>\<open>null\<close> and reading its \<^verbatim>\<open>querySelector\<close> throws a
  TypeError.
\<close>

definition packHTMLAssets :: "browser \<Rightarrow> string \<Rightarrow> archive option \<Rightarrow> exn + pack_state" where
  "packHTMLAssets B html zip_arg =
     (let document = parseFromString B html in
      case page_content_of document of
        None \<Rightarrow> Inl TypeError
      | Some (pc, n) \<Rightarrow> Inr (pack_content B document pc n zip_arg))"

section \<open>Notions of the specification of the two helpers over HTML\<close>

text \<open>
  The nodes of a document, to say that it contains an element. The names of the files of
  one call are built from the values drawn from the clock and the random generator: the
  specification takes them to be unique within a call, which \<open>unique_names\<close> states
  for the file names built from two different draws. \<open>drawn_from B k\<close> holds for the
  names the call can still give to a file after \<open>k\<close> draws.
\<close>

fun nodes :: "node \<Rightarrow> node list" where
  "nodes (Element tag attrs children) = Element tag attrs children # concat (map nodes children)"
| "nodes (Text t) = [Text t]"
| "nodes (Comment t) = [Comment t]"

definition unique_names :: "browser \<Rightarrow> bool" where
  "unique_names B =
     (\<forall>j k e e'. j \<noteq> k \<longrightarrow> asset_path (uuid B j) e \<noteq> asset_path (uuid B k) e')"

definition drawn_from :: "browser \<Rightarrow> nat \<Rightarrow> string \<Rightarrow> bool" where
  "drawn_from B k name = (\<exists>j\<ge>k. \<exists>e. name = asset_path (uuid B j) e)"

text \<open>
  A fetchable image: its \<^verbatim>\<open>src\<close> is not empty and the request for it is answered;
  \<open>image_blob\<close> is the answer. \<open>blob_path B k b\<close> is the name of the file for the blob
  \<open>b\<close> under the \<open>k\<close>-th draw.
\<close>

definition image_blob :: "browser \<Rightarrow> node \<Rightarrow> path \<Rightarrow> blob option" where
  "image_blob B c p =
     (let src = url_property B (attr_at c p ''src'') in
      if src = [] then None
      else (case fetch_blob B src of Inr b \<Rightarrow> Some b | Inl e \<Rightarrow> None))"

definition blob_path :: "browser \<Rightarrow> nat \<Rightarrow> blob \<Rightarrow> string" where
  "blob_path B k b = asset_path (uuid B k) (getExtension B (blob_type b))"

text \<open>
  The requests that the loop over the images and the loop over the stylesheets make, and
  the URLs of the background images of a serialized content, one for each occurrence.
\<close>

definition image_requests :: "browser \<Rightarrow> node \<Rightarrow> string list" where
  "image_requests B c =
     filter (\<lambda>u. u \<noteq> []) (map (\<lambda>p. url_property B (attr_at c p ''src'')) (querySelectorAll img_with_src c))"

definition stylesheet_requests :: "browser \<Rightarrow> node \<Rightarrow> string list" where
  "stylesheet_requests B d = map (\<lambda>l. url_property B (getAttribute l ''href'')) (head_links False d)"

definition bg_occurrences :: "string \<Rightarrow> string list" where
  "bg_occurrences s =
     concat (map (\<lambda>g. case g of Plain c \<Rightarrow> [] | BgRef p1 url p3 \<Rightarrow> [url]) (bg_scan s))"

text \<open>
  A name of the archive that is a file, and the states in which every path of
  \<^verbatim>\<open>url2pathMap\<close> is one.
\<close>

definition is_file :: "archive \<Rightarrow> string \<Rightarrow> bool" where
  "is_file z name = (\<exists>c. z name = Some (File c))"

definition mapped_files :: "pack_state \<Rightarrow> bool" where
  "mapped_files st = (\<forall>u path. url2pathMap st u = Some path \<longrightarrow> is_file (jszip st) path)"

text \<open>
Two states that differ in their archives at most.
\<close>

definition same_but_zip :: "pack_state \<Rightarrow> pack_state \<Rightarrow> bool" where
  "same_but_zip st st' =
     (pageContent st = pageContent st' \<and> draws st = draws st' \<and> requests st = requests st' \<and>
      console st = console st' \<and> url2pathMap st = url2pathMap st' \<and>
      pageContentHTML st = pageContentHTML st' \<and> localLinks st = localLinks st')"

section \<open>The list fetcher's contract, in the words of the specification\<close>

text \<open>
  Modelled from the spec: \<^verbatim>\<open>publish_page\<close> decodes to
  \<^verbatim>\<open>{publish_list: [{publish_info: <JSON string>}, ...]}\<close> and each \<^verbatim>\<open>publish_info\<close>
  decodes to \<^verbatim>\<open>{appmsgex: [...]}\<close>. \<open>entry_info\<close> is an entry's publish info, when
  the entry is an object that has the field and the field is a string. \<open>entry_ok\<close> is
  the shape of an entry under that contract: an object whose \<^verbatim>\<open>publish_info\<close> is
  missing or empty (\<^verbatim>\<open>undefined\<close>, \<^verbatim>\<open>null\<close>, \<^verbatim>\<open>false\<close>, a number that counts as false, the
  empty string), or a string that decodes to an object with a list \<^verbatim>\<open>appmsgex\<close>.
\<close>

definition entry_info :: "'n jsval \<Rightarrow> string option" where
  "entry_info item =
     (case item of
        Obj props \<Rightarrow> (case map_of props ''publish_info'' of Some (Str s) \<Rightarrow> Some s | _ \<Rightarrow> None)
      | _ \<Rightarrow> None)"

definition has_publish_info :: "'n jsval \<Rightarrow> bool" where
  "has_publish_info item = (case entry_info item of None \<Rightarrow> False | Some s \<Rightarrow> s \<noteq> [])"

definition info_appmsgex :: "'n runtime \<Rightarrow> string \<Rightarrow> 'n jsval list option" where
  "info_appmsgex R s =
     (case JSON_parse R s of
        Some (Obj props) \<Rightarrow> (case map_of props ''appmsgex'' of Some (Arr xs) \<Rightarrow> Some xs | _ \<Rightarrow> None)
      | _ \<Rightarrow> None)"

definition entry_appmsgex :: "'n runtime \<Rightarrow> 'n jsval \<Rightarrow> 'n jsval list" where
  "entry_appmsgex R item =
     (case entry_info item of
        Some s \<Rightarrow> (case info_appmsgex R s of Some xs \<Rightarrow> xs | None \<Rightarrow> [])
      | None \<Rightarrow> [])"

definition entry_ok :: "'n runtime \<Rightarrow> 'n jsval \<Rightarrow> bool" where
  "entry_ok R item =
     (case item of
        Obj props \<Rightarrow>
          (case map_of props ''publish_info'' of
             None \<Rightarrow> True
           | Some Undefined \<Rightarrow> True
           | Some Null \<Rightarrow> True
           | Some (Bool b) \<Rightarrow> \<not> b
           | Some (Num n) \<Rightarrow> \<not> num_truthy R n
           | Some (Str s) \<Rightarrow> s = [] \<or> info_appmsgex R s \<noteq> None
           | Some _ \<Rightarrow> False)
      | _ \<Rightarrow> False)"

section \<open>An example server\<close>

text \<open>
  The examples run on a runtime whose \<open>JSON_parse\<close> is the table of what
  \<^verbatim>\<open>JSON.parse\<close> returns on the three texts below, and throws on every other text; the
  only other text the examples parse is the empty one, which is not JSON. \<open>json_quote\<close>
  writes a text as a JSON string literal. \<open>ex_ToString\<close> is not consulted: every
  \<^verbatim>\<open>publish_info\<close> of the examples is a string.
\<close>

definition json_quote :: "string \<Rightarrow> string" where
  \<open>json_quote s =
     ''"'' @ concat (map (\<lambda>c. if c = CHR ''"'' \<or> c = CHR 0x5C then [CHR 0x5C, c] else [c]) s) @ ''"''\<close>

definition ex_info_ab :: string where
  \<open>ex_info_ab = ''{"appmsgex":[{"title":"a"},{"title":"b"}]}''\<close>

definition ex_info_c :: string where
  \<open>ex_info_c = ''{"appmsgex":[{"title":"c"}]}''\<close>

definition ex_page :: string where
  \<open>ex_page = ''{"publish_list":[{"publish_info":'' @ json_quote ex_info_ab @
     ''},{"publish_info":""},{},{"publish_info":'' @ json_quote ex_info_c @ ''}]}''\<close>

definition ex_JSON_parse :: "string \<Rightarrow> int jsval option" where
  "ex_JSON_parse =
     map_of
       [(ex_page,
          Obj [(''publish_list'',
                Arr [Obj [(''publish_info'', Str ex_info_ab)],
                     Obj [(''publish_info'', Str [])],
                     Obj [],
                     Obj [(''publish_info'', Str ex_info_c)]])]),
        (ex_info_ab, Obj [(''appmsgex'', Arr [Obj [(''title'', Str ''a'')], Obj [(''title'', Str ''b'')]])]),
        (ex_info_c, Obj [(''appmsgex'', Arr [Obj [(''title'', Str ''c'')]])])]"

definition ex_ToString :: "int jsval \<Rightarrow> exn + string" where
  "ex_ToString v =
     (case v of
        Undefined \<Rightarrow> Inr ''undefined''
      | Null \<Rightarrow> Inr ''null''
      | Bool b \<Rightarrow> Inr (if b then ''true'' else ''false'')
      | _ \<Rightarrow> Inl TypeError)"

definition ex_server :: "AppMsgPublishResponse \<Rightarrow> int runtime" where
  "ex_server resp =
     \<lparr>fetch_appmsgpublish = (\<lambda>q. Inr resp), JSON_parse = ex_JSON_parse,
      ToString = ex_ToString, num_truthy = (\<lambda>n. n \<noteq> 0)\<rparr>"

definition ex_response :: "int \<Rightarrow> string \<Rightarrow> string \<Rightarrow> AppMsgPublishResponse" where
  "ex_response r msg page = \<lparr>base_resp = \<lparr>ret = r, err_msg = msg\<rparr>, publish_page = page\<rparr>"

text \<open>
  A second runtime, for payloads at the edge of the contract and beyond it: a page with
  an entry whose \<^verbatim>\<open>publish_info\<close> is \<^verbatim>\<open>null\<close>, a page none of whose entries has a
  \<^verbatim>\<open>publish_info\<close>, a page without a \<^verbatim>\<open>publish_list\<close>, and a page whose only entry has
  a \<^verbatim>\<open>publish_info\<close> without \<^verbatim>\<open>appmsgex\<close>.
\<close>

definition ex_page_null :: string where
  \<open>ex_page_null = ''{"publish_list":[{"publish_info":'' @ json_quote ex_info_ab @
     ''},{"publish_info":null},{"publish_info":""},{},{"publish_info":'' @ json_quote ex_info_c @ ''}]}''\<close>

definition ex_page_done :: string where
  \<open>ex_page_done = ''{"publish_list":[{"publish_info":null},{}]}''\<close>

definition ex_page_bare :: string where
  \<open>ex_page_bare = ''{"publish_list":[{"publish_info":"{}"}]}''\<close>

definition ex_JSON_parse_more :: "string \<Rightarrow> int jsval option" where
  "ex_JSON_parse_more =
     map_of
       [(ex_page_null,
          Obj [(''publish_list'',
                Arr [Obj [(''publish_info'', Str ex_info_ab)],
                     Obj [(''publish_info'', Null)],
                     Obj [(''publish_info'', Str [])],
                     Obj [],
                     Obj [(''publish_info'', Str ex_info_c)]])]),
        (ex_info_ab, Obj [(''appmsgex'', Arr [Obj [(''title'', Str ''a'')], Obj [(''title'', Str ''b'')]])]),
        (ex_info_c, Obj [(''appmsgex'', Arr [Obj [(''title'', Str ''c'')]])]),
        (ex_page_done, Obj [(''publish_list'', Arr [Obj [(''publish_info'', Null)], Obj []])]),
        (ex_page_bare, Obj [(''publish_list'', Arr [Obj [(''publish_info'', Str ''{}'')]])]),
        (''{}'', Obj [])]"

definition ex_server_more :: "AppMsgPublishResponse \<Rightarrow> int runtime" where
  "ex_server_more resp =
     \<lparr>fetch_appmsgpublish = (\<lambda>q. Inr resp), JSON_parse = ex_JSON_parse_more,
      ToString = ex_ToString, num_truthy = (\<lambda>n. n \<noteq> 0)\<rparr>"

section \<open>An example browser\<close>

text \<open>
  The examples run in a browser that knows four pages. The first, \<open>ex_html\<close>, has a
  doctype, three links in its head (two stylesheets, one of them written
  \<^verbatim>\<open>StyleSheet\<close>, and an icon) and the container, with three images, three background
  images (one URL twice, and that URL is also the source of the third image) and a
  script. The second has no container. The third has no doctype, so that its document is
  in quirks mode, and its container and content carry their ids in other letter cases;
  the fourth is the third behind a doctype. \<open>parseFromString\<close> is the table of the four
  documents, \<open>ex_outerHTML\<close> serializes documents whose attribute values need no escape
  but that of the double quote, the URLs are absolute (so that the browser resolves each
  to itself) and the article addresses consist of characters that
  \<^verbatim>\<open>encodeURIComponent\<close> leaves alone. The requests for \<^verbatim>\<open>2.png\<close> and \<^verbatim>\<open>gone.png\<close>
  fail. The names drawn in \<open>ex_browser\<close> differ from each other; \<open>ex_clash_browser\<close>
  is the same browser drawing the same name every time.
\<close>

definition ex_escape :: "string \<Rightarrow> string" where
  \<open>ex_escape s = concat (map (\<lambda>c. if c = CHR ''"'' then ''&quot;'' else [c]) s)\<close>

fun ex_outerHTML :: "node \<Rightarrow> string" where
  \<open>ex_outerHTML (Element tag attrs children) =
     ''<'' @ tag @ concat (map (\<lambda>(k, v). '' '' @ k @ ''="'' @ ex_escape v @ ''"'') attrs) @ ''>'' @
     (if tag \<in> {''img'', ''link'', ''meta'', ''br''} then []
      else concat (map ex_outerHTML children) @ ''</'' @ tag @ ''>'')\<close>
| "ex_outerHTML (Text t) = t"
| "ex_outerHTML (Comment t) = ''<!--'' @ t @ ''-->''"

definition ex_html :: string where
  \<open>ex_html =
     ''<!DOCTYPE html>'' @
     ''<html><head><link rel="stylesheet" href="https://cdn.example/a.css">'' @
     ''<link rel="icon" href="https://cdn.example/i.ico">'' @
     ''<link rel="StyleSheet" href="https://cdn.example/b.css"></head>'' @
     ''<body><div id="page-content"><div id="js_content" style="visibility: hidden;">'' @
     ''<img src="https://cdn.example/1.png"><img src="https://cdn.example/2.png">'' @
     ''<img src="https://cdn.example/bg.png">'' @
     ''<p style="background: url(&quot;https://cdn.example/bg.png&quot;)">a</p>'' @
     ''<p style="background-image: url(https://cdn.example/bg.png)">b</p>'' @
     ''<p style="background: url(//cdn.example/gone.png)">c</p>'' @
     ''</div><script>var x</script></div></body></html>''\<close>

definition ex_content :: node where
  \<open>ex_content =
     Element ''div'' [(''id'', ''page-content'')]
       [Element ''div'' [(''id'', ''js_content''), (''style'', ''visibility: hidden;'')]
          [Element ''img'' [(''src'', ''https://cdn.example/1.png'')] [],
           Element ''img'' [(''src'', ''https://cdn.example/2.png'')] [],
           Element ''img'' [(''src'', ''https://cdn.example/bg.png'')] [],
           Element ''p'' [(''style'', ''background: url("https://cdn.example/bg.png")'')] [Text ''a''],
           Element ''p'' [(''style'', ''background-image: url(https://cdn.example/bg.png)'')] [Text ''b''],
           Element ''p'' [(''style'', ''background: url(//cdn.example/gone.png)'')] [Text ''c'']],
        Element ''script'' [] [Text ''var x'']]\<close>

definition ex_root :: node where
  \<open>ex_root =
     Element ''html'' []
       [Element ''head'' []
          [Element ''link'' [(''rel'', ''stylesheet''), (''href'', ''https://cdn.example/a.css'')] [],
           Element ''link'' [(''rel'', ''icon''), (''href'', ''https://cdn.example/i.ico'')] [],
           Element ''link'' [(''rel'', ''StyleSheet''), (''href'', ''https://cdn.example/b.css'')] []],
        Element ''body'' [] [ex_content]]\<close>

definition ex_document :: document where
  "ex_document = \<lparr>quirks = False, documentElement = ex_root\<rparr>"

definition ex_handle :: path where
  "ex_handle = [1, 0]"

definition ex_blocked_html :: string where
  "ex_blocked_html = ''<html><head></head><body><p>blocked</p></body></html>''"

definition ex_blocked_document :: document where
  "ex_blocked_document =
     \<lparr>quirks = True,
      documentElement =
        Element ''html'' []
          [Element ''head'' [] [], Element ''body'' [] [Element ''p'' [] [Text ''blocked'']]]\<rparr>"

definition ex_quirks_html :: string where
  \<open>ex_quirks_html =
     ''<html><head></head><body>'' @
     ''<div id="PAGE-CONTENT"><div id="Js_Content" style="visibility: hidden;">'' @
     ''<img src="https://cdn.example/bg.png"><img src="https://cdn.example/1.png">'' @
     ''</div></div></body></html>''\<close>

definition ex_upper_content :: node where
  \<open>ex_upper_content =
     Element ''div'' [(''id'', ''PAGE-CONTENT'')]
       [Element ''div'' [(''id'', ''Js_Content''), (''style'', ''visibility: hidden;'')]
          [Element ''img'' [(''src'', ''https://cdn.example/bg.png'')] [],
           Element ''img'' [(''src'', ''https://cdn.example/1.png'')] []]]\<close>

definition ex_upper_root :: node where
  "ex_upper_root =
     Element ''html'' [] [Element ''head'' [] [], Element ''body'' [] [ex_upper_content]]"

definition ex_quirks_document :: document where
  "ex_quirks_document = \<lparr>quirks = True, documentElement = ex_upper_root\<rparr>"

definition ex_strict_html :: string where
  "ex_strict_html = ''<!DOCTYPE html>'' @ ex_quirks_html"

definition ex_strict_document :: document where
  "ex_strict_document = \<lparr>quirks = False, documentElement = ex_upper_root\<rparr>"

definition ex_png :: "string \<Rightarrow> blob" where
  "ex_png bytes = \<lparr>blob_type = ''image/png'', blob_bytes = bytes\<rparr>"

definition ex_uuid :: "nat \<Rightarrow> string" where
  "ex_uuid k = ''17000000000000.'' @ replicate (Suc k) (CHR ''1'')"

definition ex_browser :: browser where
  "ex_browser =
     \<lparr>encodeURIComponent = Inr,
      fetch_text = (\<lambda>url.
        if url = ''/api/download?url=article-1'' then Inr ex_html
        else if url = ''/api/download?url=article-2'' then Inr ex_blocked_html
        else if url = ''/api/download?url=article-3'' then Inr ex_quirks_html
        else if url = ''/api/download?url=article-4'' then Inr ex_strict_html
        else if url = ''https://cdn.example/a.css'' then Inr ''p{margin:0}''
        else if url = ''https://cdn.example/b.css'' then Inr ''img{border:0}''
        else Inl (FetchError ''404'')),
      fetch_blob = (\<lambda>url.
        if url = ''https://cdn.example/1.png'' then Inr (ex_png ''one'')
        else if url = ''https://cdn.example/bg.png'' then Inr (ex_png ''background'')
        else Inl (FetchError ''404'')),
      parseFromString = (\<lambda>html.
        if html = ex_html then ex_document
        else if html = ex_blocked_html then ex_blocked_document
        else if html = ex_quirks_html then ex_quirks_document
        else if html = ex_strict_html then ex_strict_document
        else \<lparr>quirks = True,
              documentElement = Element ''html'' [] [Element ''head'' [] [], Element ''body'' [] []]\<rparr>),
      outerHTML = ex_outerHTML,
      resolve_url = (\<lambda>v. v),
      uuid = ex_uuid,
      getExtension = (\<lambda>t. if t = ''image/png'' then Some ''png'' else None),
      parent_folders = (\<lambda>name. if take 7 name = ''assets/'' then [''assets/''] else [])\<rparr>"

definition ex_clash_uuid :: "nat \<Rightarrow> string" where
  "ex_clash_uuid k = ''17000000000000.5''"

definition ex_clash_browser :: browser where
  "ex_clash_browser = ex_browser\<lparr>uuid := ex_clash_uuid\<rparr>"

text \<open>
  The content of the first page after the removals, after the loop over the images, and
  serialized; the matches of the pattern in the serialization; the \<^verbatim>\<open>index.html\<close> of the
  first page.
\<close>

definition ex_clean :: node where
  \<open>ex_clean =
     Element ''div'' [(''id'', ''page-content'')]
       [Element ''div'' [(''id'', ''js_content'')]
          [Element ''img'' [(''src'', ''https://cdn.example/1.png'')] [],
           Element ''img'' [(''src'', ''https://cdn.example/2.png'')] [],
           Element ''img'' [(''src'', ''https://cdn.example/bg.png'')] [],
           Element ''p'' [(''style'', ''background: url("https://cdn.example/bg.png")'')] [Text ''a''],
           Element ''p'' [(''style'', ''background-image: url(https://cdn.example/bg.png)'')] [Text ''b''],
           Element ''p'' [(''style'', ''background: url(//cdn.example/gone.png)'')] [Text ''c'']]]\<close>

definition ex_packed :: node where
  \<open>ex_packed =
     Element ''div'' [(''id'', ''page-content'')]
       [Element ''div'' [(''id'', ''js_content'')]
          [Element ''img'' [(''src'', ''./assets/17000000000000.1.png'')] [],
           Element ''img'' [(''src'', ''https://cdn.example/2.png'')] [],
           Element ''img'' [(''src'', ''./assets/17000000000000.11.png'')] [],
           Element ''p'' [(''style'', ''background: url("https://cdn.example/bg.png")'')] [Text ''a''],
           Element ''p'' [(''style'', ''background-image: url(https://cdn.example/bg.png)'')] [Text ''b''],
           Element ''p'' [(''style'', ''background: url(//cdn.example/gone.png)'')] [Text ''c'']]]\<close>

definition ex_serialized :: string where
  \<open>ex_serialized =
     ''<div id="page-content"><div id="js_content">'' @
     ''<img src="./assets/17000000000000.1.png"><img src="https://cdn.example/2.png">'' @
     ''<img src="./assets/17000000000000.11.png">'' @
     ''<p style="background: url(&quot;https://cdn.example/bg.png&quot;)">a</p>'' @
     ''<p style="background-image: url(https://cdn.example/bg.png)">b</p>'' @
     ''<p style="background: url(//cdn.example/gone.png)">c</p>'' @
     ''</div></div>''\<close>

definition ex_segments :: "seg list" where
  \<open>ex_segments =
     map Plain (''<div id="page-content"><div id="js_content">'' @
       ''<img src="./assets/17000000000000.1.png"><img src="https://cdn.example/2.png">'' @
       ''<img src="./assets/17000000000000.11.png">'' @ ''<p style="'') @
     [BgRef ''background: url(&quot;'' ''https://cdn.example/bg.png'' ''&quot;)''] @
     map Plain ''">a</p><p style="'' @
     [BgRef ''background-image: url('' ''https://cdn.example/bg.png'' '')''] @
     map Plain ''">b</p><p style="'' @
     [BgRef ''background: url('' ''//cdn.example/gone.png'' '')''] @
     map Plain ''">c</p></div></div>''\<close>

definition ex_index :: string where
  \<open>ex_index =
     ''<!DOCTYPE html>\<newline>'' @
     ''<html lang="zh_CN">\<newline>'' @
     ''<head>\<newline>'' @
     ''    <meta charset="utf-8">\<newline>'' @
     ''    <meta http-equiv="Content-Type" content="text/html; charset=utf-8">\<newline>'' @
     ''    <meta http-equiv="X-UA-Compatible" content="IE=edge">\<newline>'' @
     ''    <meta name="viewport" content="width=device-width,initial-scale=1.0,maximum-scale=1.0,user-scalable=0,viewport-fit=cover">\<newline>'' @
     ''    <link rel="stylesheet" href="./assets/17000000000000.1111.css">'' @
     ''<link rel="stylesheet" href="./assets/17000000000000.11111.css">\<newline>'' @
     ''    <style>\<newline>'' @
     ''        #page-content {\<newline>'' @
     ''            max-width: 667px;\<newline>'' @
     ''            margin: 0 auto;\<newline>'' @
     ''        }\<newline>'' @
     ''        img {\<newline>'' @
     ''            max-width: 100%;\<newline>'' @
     ''        }\<newline>'' @
     ''    </style>\<newline>'' @
     ''</head>\<newline>'' @
     ''<body>\<newline>'' @
     ''<div id="page-content"><div id="js_content">'' @
     ''<img src="./assets/17000000000000.1.png"><img src="https://cdn.example/2.png">'' @
     ''<img src="./assets/17000000000000.11.png">'' @
     ''<p style="background: url(&quot;./assets/17000000000000.111.png&quot;)">a</p>'' @
     ''<p style="background-image: url(./assets/17000000000000.111.png)">b</p>'' @
     ''<p style="background: url(//cdn.example/gone.png)">c</p>'' @
     ''</div></div>\<newline>'' @
     ''</body>\<newline>'' @
     ''</html>''\<close>

text \<open>
  The content of the third page after the removals, then after the loop over the images
  when every name drawn is the same, and serialized; the \<^verbatim>\<open>index.html\<close> of that call.
\<close>

definition ex_upper_clean :: node where
  \<open>ex_upper_clean =
     Element ''div'' [(''id'', ''PAGE-CONTENT'')]
       [Element ''div'' [(''id'', ''Js_Content'')]
          [Element ''img'' [(''src'', ''https://cdn.example/bg.png'')] [],
           Element ''img'' [(''src'', ''https://cdn.example/1.png'')] []]]\<close>

definition ex_upper_packed :: node where
  \<open>ex_upper_packed =
     Element ''div'' [(''id'', ''PAGE-CONTENT'')]
       [Element ''div'' [(''id'', ''Js_Content'')]
          [Element ''img'' [(''src'', ''./assets/17000000000000.5.png'')] [],
           Element ''img'' [(''src'', ''./assets/17000000000000.5.png'')] []]]\<close>

definition ex_upper_serialized :: string where
  \<open>ex_upper_serialized =
     ''<div id="PAGE-CONTENT"><div id="Js_Content">'' @
     ''<img src="./assets/17000000000000.5.png"><img src="./assets/17000000000000.5.png">'' @
     ''</div></div>''\<close>

definition ex_clash_index :: string where
  \<open>ex_clash_index =
     ''<!DOCTYPE html>\<newline>'' @
     ''<html lang="zh_CN">\<newline>'' @
     ''<head>\<newline>'' @
     ''    <meta charset="utf-8">\<newline>'' @
     ''    <meta http-equiv="Content-Type" content="text/html; charset=utf-8">\<newline>'' @
     ''    <meta http-equiv="X-UA-Compatible" content="IE=edge">\<newline>'' @
     ''    <meta name="viewport" content="width=device-width,initial-scale=1.0,maximum-scale=1.0,user-scalable=0,viewport-fit=cover">\<newline>'' @
     ''    \<newline>'' @
     ''    <style>\<newline>'' @
     ''        #page-content {\<newline>'' @
     ''            max-width: 667px;\<newline>'' @
     ''            margin: 0 auto;\<newline>'' @
     ''        }\<newline>'' @
     ''        img {\<newline>'' @
     ''            max-width: 100%;\<newline>'' @
     ''        }\<newline>'' @
     ''    </style>\<newline>'' @
     ''</head>\<newline>'' @
     ''<body>\<newline>'' @
     ''<div id="PAGE-CONTENT"><div id="Js_Content">'' @
     ''<img src="./assets/17000000000000.5.png"><img src="./assets/17000000000000.5.png">'' @
     ''</div></div>\<newline>'' @
     ''</body>\<newline>'' @
     ''</html>''\<close>

text \<open>
The archive of an earlier article, whose names were drawn at an earlier time.
\<close>

definition ex_previous :: archive where
  "ex_previous =
     [''assets/'' \<mapsto> Dir,
      ''assets/16999999999990.5.png'' \<mapsto> File (BlobData (ex_png ''earlier'')),
      ''index.html'' \<mapsto> File (TextData ''<!DOCTYPE html>earlier'')]"

section \<open>Properties of the list fetcher\<close>

subsection \<open>The successful response\<close>

lemma filter_publish_info_ok:
  "list_all (entry_ok R) items \<Longrightarrow>
   filter_publish_info R items = Inr (filter has_publish_info items)"
  by (induction items)
     (auto simp: entry_ok_def has_publish_info_def entry_info_def get_prop_def ToBoolean_def
           split: jsval.splits option.splits)

lemma flatMap_appmsgex_ok:
  "list_all (entry_ok R) items \<Longrightarrow> list_all has_publish_info items \<Longrightarrow>
   flatMap_appmsgex R items = Inr (concat (map (entry_appmsgex R) items))"
  by (induction items)
     (auto simp: entry_ok_def has_publish_info_def entry_info_def get_prop_def
                 entry_appmsgex_def info_appmsgex_def JSON_parse_value_def JSON_parse_text_def
                 flatten_one_def
           split: jsval.splits option.splits)

lemma ex_more_parse:
  "ex_JSON_parse_more ex_page_null =
     Some (Obj [(''publish_list'',
                 Arr [Obj [(''publish_info'', Str ex_info_ab)],
                      Obj [(''publish_info'', Null)],
                      Obj [(''publish_info'', Str [])],
                      Obj [],
                      Obj [(''publish_info'', Str ex_info_c)]])])"
  "ex_JSON_parse_more ex_info_ab =
     Some (Obj [(''appmsgex'', Arr [Obj [(''title'', Str ''a'')], Obj [(''title'', Str ''b'')]])])"
  "ex_JSON_parse_more ex_info_c = Some (Obj [(''appmsgex'', Arr [Obj [(''title'', Str ''c'')]])])"
  "ex_JSON_parse_more ex_page_done =
     Some (Obj [(''publish_list'', Arr [Obj [(''publish_info'', Null)], Obj []])])"
  "ex_JSON_parse_more ex_page_bare =
     Some (Obj [(''publish_list'', Arr [Obj [(''publish_info'', Str ''{}'')]])])"
  "ex_JSON_parse_more ''{}'' = Some (Obj [])"
  by (simp_all add: ex_JSON_parse_more_def ex_page_null_def ex_page_done_def ex_page_bare_def
        ex_info_ab_def ex_info_c_def)

lemma ex_server_more_sel:
  "JSON_parse (ex_server_more r) = ex_JSON_parse_more"
  "fetch_appmsgpublish (ex_server_more r) q = Inr r"
  "num_truthy (ex_server_more r) = (\<lambda>n. n \<noteq> 0)"
  by (simp_all add: ex_server_more_def)

lemma ex_info_nonempty: "ex_info_ab \<noteq> []" "ex_info_c \<noteq> []"
  by (simp_all add: ex_info_ab_def ex_info_c_def)

text \<open>
  Claim C1, as stated, fails: it holds for the responses with \<open>ret = 0\<close> whose payload
  has the shape of the contract, not for every response with \<open>ret = 0\<close>. A
  \<^verbatim>\<open>publish_page\<close> that decodes to an object without \<^verbatim>\<open>publish_list\<close> makes the function
  throw a TypeError, and an entry whose \<^verbatim>\<open>publish_info\<close> decodes to an object without
  \<^verbatim>\<open>appmsgex\<close> puts \<^verbatim>\<open>undefined\<close> into the result, which is then no concatenation of
  inner lists.
\<close>

theorem success_outside_the_contract:
  "getArticleList (ex_server_more (ex_response 0 ''ok'' ''{}'')) ''id'' ''tok'' None None =
     Inl TypeError \<and>
   getArticleList (ex_server_more (ex_response 0 ''ok'' ex_page_bare)) ''id'' ''tok'' None None =
     Inr [Undefined]"
  by (simp add: getArticleList_def ex_server_more_sel ex_response_def JSON_parse_text_def
        JSON_parse_value_def ex_more_parse get_prop_def ToBoolean_def flatten_one_def)

text \<open>
  Claim C1, amended. When the response has \<open>ret = 0\<close>, its \<^verbatim>\<open>publish_page\<close> parses to a
  page object whose \<^verbatim>\<open>publish_list\<close> is a list of entries of the contract (objects whose
  \<^verbatim>\<open>publish_info\<close> is missing, empty, or a string that parses to an object with a list
  \<^verbatim>\<open>appmsgex\<close>), the function returns the concatenation, in order, of the \<^verbatim>\<open>appmsgex\<close>
  lists of the entries whose \<^verbatim>\<open>publish_info\<close> is neither missing nor empty, each
  obtained by parsing that entry's \<^verbatim>\<open>publish_info\<close>. When no entry is left the
  concatenation is the empty list.
\<close>

theorem getArticleList_success:
  assumes "fetch_appmsgpublish R (list_query fakeid token page keyword) = Inr resp"
    and "ret (base_resp resp) = 0"
    and "JSON_parse R (publish_page resp) = Some (Obj page_props)"
    and "map_of page_props ''publish_list'' = Some (Arr items)"
    and "list_all (entry_ok R) items"
  shows "getArticleList R fakeid token page keyword =
           Inr (concat (map (entry_appmsgex R) (filter has_publish_info items)))"
proof -
  let ?kept = "filter has_publish_info items"
  have kept: "filter_publish_info R items = Inr ?kept"
    using assms(5) by (rule filter_publish_info_ok)
  have "list_all (entry_ok R) ?kept" "list_all has_publish_info ?kept"
    using assms(5) by (simp_all add: list_all_iff)
  then have flat: "flatMap_appmsgex R ?kept = Inr (concat (map (entry_appmsgex R) ?kept))"
    by (rule flatMap_appmsgex_ok)
  show ?thesis
    using assms(1-4) kept flat
    by (simp add: getArticleList_def JSON_parse_text_def get_prop_def)
qed

text \<open>
  Five entries, the second with the \<^verbatim>\<open>publish_info\<close> \<^verbatim>\<open>null\<close>, the third with an empty
  one and the fourth with none: the result is the two articles of the first followed by
  the one of the last. Two entries without \<^verbatim>\<open>publish_info\<close>: the result is the empty
  list.
\<close>

theorem getArticleList_success_witness:
  "getArticleList (ex_server_more (ex_response 0 ''ok'' ex_page_null)) ''id'' ''tok'' None None =
     Inr [Obj [(''title'', Str ''a'')], Obj [(''title'', Str ''b'')], Obj [(''title'', Str ''c'')]] \<and>
   getArticleList (ex_server_more (ex_response 0 ''ok'' ex_page_done)) ''id'' ''tok'' (Some 7) None =
     Inr []"
proof -
  let ?R = "ex_server_more (ex_response 0 ''ok'' ex_page_null)"
  let ?items = "[Obj [(''publish_info'', Str ex_info_ab)], Obj [(''publish_info'', Null)],
                 Obj [(''publish_info'', Str [])], Obj [], Obj [(''publish_info'', Str ex_info_c)]]
                :: int jsval list"
  have 1: "fetch_appmsgpublish ?R (list_query ''id'' ''tok'' None None) =
             Inr (ex_response 0 ''ok'' ex_page_null)"
    by (simp add: ex_server_more_sel)
  have 2: "ret (base_resp (ex_response 0 ''ok'' ex_page_null)) = 0"
    by (simp add: ex_response_def)
  have 3: "JSON_parse ?R (publish_page (ex_response 0 ''ok'' ex_page_null)) =
             Some (Obj [(''publish_list'', Arr ?items)])"
    by (simp add: ex_response_def ex_more_parse ex_server_more_sel)
  have 4: "map_of [(''publish_list'', Arr ?items)] ''publish_list'' = Some (Arr ?items)"
    by simp
  have 5: "list_all (entry_ok ?R) ?items"
    by (simp add: entry_ok_def info_appmsgex_def ex_more_parse ex_server_more_sel)
  have "concat (map (entry_appmsgex ?R) (filter has_publish_info ?items)) =
          [Obj [(''title'', Str ''a'')], Obj [(''title'', Str ''b'')], Obj [(''title'', Str ''c'')]]"
    by (simp add: has_publish_info_def entry_info_def entry_appmsgex_def info_appmsgex_def
          ex_more_parse ex_info_nonempty ex_server_more_sel)
  with getArticleList_success [OF 1 2 3 4 5] have first:
    "getArticleList ?R ''id'' ''tok'' None None =
       Inr [Obj [(''title'', Str ''a'')], Obj [(''title'', Str ''b'')], Obj [(''title'', Str ''c'')]]"
    by simp
  let ?R' = "ex_server_more (ex_response 0 ''ok'' ex_page_done)"
  let ?items' = "[Obj [(''publish_info'', Null)], Obj []] :: int jsval list"
  have 1: "fetch_appmsgpublish ?R' (list_query ''id'' ''tok'' (Some 7) None) =
             Inr (ex_response 0 ''ok'' ex_page_done)"
    by (simp add: ex_server_more_sel)
  have 2: "ret (base_resp (ex_response 0 ''ok'' ex_page_done)) = 0"
    by (simp add: ex_response_def)
  have 3: "JSON_parse ?R' (publish_page (ex_response 0 ''ok'' ex_page_done)) =
             Some (Obj [(''publish_list'', Arr ?items')])"
    by (simp add: ex_response_def ex_more_parse ex_server_more_sel)
  have 4: "map_of [(''publish_list'', Arr ?items')] ''publish_list'' = Some (Arr ?items')"
    by simp
  have 5: "list_all (entry_ok ?R') ?items'"
    by (simp add: entry_ok_def)
  have "concat (map (entry_appmsgex ?R') (filter has_publish_info ?items')) = []"
    by (simp add: has_publish_info_def entry_info_def)
  with getArticleList_success [OF 1 2 3 4 5] have
    "getArticleList ?R' ''id'' ''tok'' (Some 7) None = Inr []"
    by simp
  with first show ?thesis by simp
qed

lemma ex_server_sel:
  "JSON_parse (ex_server r) = ex_JSON_parse"
  "fetch_appmsgpublish (ex_server r) q = Inr r"
  by (simp_all add: ex_server_def)

subsection \<open>The two errors the function throws\<close>

text \<open>
  Claim C3. A response whose code is neither 0 nor 200003 and whose \<^verbatim>\<open>err_msg\<close> is
  \<open>X\<close> makes the function throw an \<^verbatim>\<open>Error\<close> whose message is exactly \<open>X\<close>.
\<close>

theorem getArticleList_generic_error:
  assumes "fetch_appmsgpublish R (list_query fakeid token page keyword) = Inr resp"
    and "ret (base_resp resp) \<noteq> 0"
    and "ret (base_resp resp) \<noteq> 200003"
    and "err_msg (base_resp resp) = X"
  shows "getArticleList R fakeid token page keyword = Inl (Error X)"
  using assms by (simp add: getArticleList_def)

text \<open>
  A server answering with code \<open>-1\<close> and the message \<^verbatim>\<open>system error\<close>.
\<close>

theorem getArticleList_generic_error_witness:
  "getArticleList (ex_server (ex_response (-1) ''system error'' [])) ''id'' ''tok'' (Some 2) None =
     Inl (Error ''system error'')"
  using getArticleList_generic_error [of "ex_server (ex_response (-1) ''system error'' [])"
      "''id''" "''tok''" "Some 2" None "ex_response (-1) ''system error'' []" "''system error''"]
  by (simp add: ex_server_sel ex_response_def)

text \<open>
  Claim C2, as stated, fails: both errors are plain \<^verbatim>\<open>Error\<close> values, told apart by
  their message only, and the generic one carries whatever message the server sent. A
  server that answers with code 1 and the message \<^verbatim>\<open>session expired\<close> makes the
  function throw the very value it throws for code 200003.
\<close>

theorem session_expired_not_distinguished:
  "getArticleList (ex_server (ex_response 200003 ''invalid session'' [])) ''id'' ''tok'' None None =
   getArticleList (ex_server (ex_response 1 ''session expired'' [])) ''id'' ''tok'' None None"
  by (simp add: getArticleList_def ex_server_sel ex_response_def)

text \<open>
  Claim C2, amended. For code 200003 the function throws an \<^verbatim>\<open>Error\<close> whose message
  is \<^verbatim>\<open>session expired\<close>, and this differs from the error thrown for any other
  non-zero code whenever the server's \<^verbatim>\<open>err_msg\<close> there is not \<^verbatim>\<open>session expired\<close>.
\<close>

theorem getArticleList_session_expired:
  assumes "fetch_appmsgpublish R (list_query fakeid token page keyword) = Inr resp"
    and "ret (base_resp resp) = 200003"
    and "fetch_appmsgpublish R' (list_query fakeid' token' page' keyword') = Inr resp'"
    and "ret (base_resp resp') \<noteq> 0"
    and "ret (base_resp resp') \<noteq> 200003"
    and "err_msg (base_resp resp') \<noteq> ''session expired''"
  shows "getArticleList R fakeid token page keyword = Inl (Error ''session expired'') \<and>
         getArticleList R' fakeid' token' page' keyword' \<noteq> getArticleList R fakeid token page keyword"
  using assms by (simp add: getArticleList_def)

text \<open>
  Code 200003 against code 1 with the message \<^verbatim>\<open>busy\<close>.
\<close>

theorem getArticleList_session_expired_witness:
  "getArticleList (ex_server (ex_response 200003 ''invalid session'' [])) ''id'' ''tok'' None None =
     Inl (Error ''session expired'') \<and>
   getArticleList (ex_server (ex_response 1 ''busy'' [])) ''id'' ''tok'' None None \<noteq>
   getArticleList (ex_server (ex_response 200003 ''invalid session'' [])) ''id'' ''tok'' None None"
  using getArticleList_session_expired [of "ex_server (ex_response 200003 ''invalid session'' [])"
      "''id''" "''tok''" None None "ex_response 200003 ''invalid session'' []"
      "ex_server (ex_response 1 ''busy'' [])" "''id''" "''tok''" None None "ex_response 1 ''busy'' []"]
  by (simp add: ex_server_sel ex_response_def getArticleList_def)

subsection \<open>Every failure that reaches the caller\<close>

lemma ex_parse_empty: "ex_JSON_parse [] = None"
  by (simp add: ex_JSON_parse_def ex_page_def ex_info_ab_def ex_info_c_def)

text \<open>
  Claim C8, as stated, fails: nothing in the function catches what decoding throws. A
  response with code 0 whose \<^verbatim>\<open>publish_page\<close> is the empty text makes
  \<^verbatim>\<open>JSON.parse\<close> throw, and the caller receives that SyntaxError.
\<close>

theorem decoding_failure_reaches_caller:
  "getArticleList (ex_server (ex_response 0 ''ok'' [])) ''id'' ''tok'' None None = Inl SyntaxError"
  by (simp add: getArticleList_def ex_server_sel ex_response_def JSON_parse_text_def ex_parse_empty)

lemma filter_publish_info_error:
  "filter_publish_info R items = Inl e \<Longrightarrow> e = TypeError"
  by (induction items) (auto simp: get_prop_def split: sum.splits jsval.splits)

lemma JSON_parse_value_error:
  "JSON_parse_value R v = Inl e \<Longrightarrow> e = SyntaxError \<or> (\<exists>w. ToString R w = Inl e)"
  by (auto simp: JSON_parse_value_def JSON_parse_text_def split: jsval.splits sum.splits option.splits)

lemma flatMap_appmsgex_error:
  "flatMap_appmsgex R items = Inl e \<Longrightarrow>
     e = SyntaxError \<or> e = TypeError \<or> (\<exists>w. ToString R w = Inl e)"
proof (induction items)
  case Nil
  then show ?case by simp
next
  case (Cons item items)
  show ?case
  proof (cases "get_prop item ''publish_info''")
    case (Inl a)
    with Cons.prems show ?thesis
      by (auto simp: get_prop_def split: jsval.splits)
  next
    case field: (Inr v)
    show ?thesis
    proof (cases "JSON_parse_value R v")
      case (Inl a)
      with Cons.prems field have "a = e" by simp
      with Inl JSON_parse_value_error show ?thesis by blast
    next
      case info: (Inr info)
      show ?thesis
      proof (cases "get_prop info ''appmsgex''")
        case (Inl a)
        with Cons.prems field info show ?thesis
          by (auto simp: get_prop_def split: jsval.splits)
      next
        case (Inr ex)
        with Cons.prems field info have "flatMap_appmsgex R items = Inl e"
          by (simp split: sum.splits)
        then show ?thesis by (rule Cons.IH)
      qed
    qed
  qed
qed

text \<open>
  Claim C8, amended. The function itself throws two errors only: \<^verbatim>\<open>session expired\<close>
  for code 200003 and the server's \<^verbatim>\<open>err_msg\<close> for any other non-zero code. Beyond
  these the caller receives, unhandled, a rejection of the request itself and, for code
  0, what decoding the payload throws: the SyntaxError of \<^verbatim>\<open>JSON.parse\<close>, the
  TypeError of a payload of the wrong shape, or what the coercion of a
  \<^verbatim>\<open>publish_info\<close> that is not a string throws.
\<close>

theorem getArticleList_failures:
  "case fetch_appmsgpublish R (list_query fakeid token page keyword) of
     Inl e \<Rightarrow> getArticleList R fakeid token page keyword = Inl e
   | Inr resp \<Rightarrow>
       if ret (base_resp resp) = 200003
       then getArticleList R fakeid token page keyword = Inl (Error ''session expired'')
       else if ret (base_resp resp) \<noteq> 0
       then getArticleList R fakeid token page keyword = Inl (Error (err_msg (base_resp resp)))
       else (\<forall>e. getArticleList R fakeid token page keyword = Inl e \<longrightarrow>
               e = SyntaxError \<or> e = TypeError \<or> (\<exists>w. ToString R w = Inl e))"
proof (cases "fetch_appmsgpublish R (list_query fakeid token page keyword)")
  case (Inl e)
  then show ?thesis by (simp add: getArticleList_def)
next
  case (Inr resp)
  show ?thesis
  proof (cases "ret (base_resp resp) = 0")
    case False
    with Inr show ?thesis by (simp add: getArticleList_def)
  next
    case True
    have "e = SyntaxError \<or> e = TypeError \<or> (\<exists>w. ToString R w = Inl e)"
      if "getArticleList R fakeid token page keyword = Inl e" for e
      using that Inr True
      by (auto simp: getArticleList_def JSON_parse_text_def get_prop_def
               split: sum.splits option.splits jsval.splits if_splits
               dest: filter_publish_info_error flatMap_appmsgex_error)
    with Inr True show ?thesis by simp
  qed
qed

text \<open>
  The three kinds of failure: the empty \<^verbatim>\<open>publish_page\<close>, the expired session and
  another code.
\<close>

theorem getArticleList_failures_witness:
  "getArticleList (ex_server (ex_response 0 ''ok'' [])) ''id'' ''tok'' None None = Inl SyntaxError \<and>
   getArticleList (ex_server (ex_response 200003 ''invalid session'' [])) ''id'' ''tok'' None None =
     Inl (Error ''session expired'') \<and>
   getArticleList (ex_server (ex_response 1 ''busy'' [])) ''id'' ''tok'' None None = Inl (Error ''busy'')"
  using getArticleList_failures [of "ex_server (ex_response 0 ''ok'' [])" "''id''" "''tok''" None None]
    getArticleList_failures [of "ex_server (ex_response 200003 ''invalid session'' [])" "''id''" "''tok''" None None]
    getArticleList_failures [of "ex_server (ex_response 1 ''busy'' [])" "''id''" "''tok''" None None]
  by (simp add: getArticleList_def ex_server_sel ex_response_def JSON_parse_text_def ex_parse_empty)

section \<open>Facts about documents\<close>

subsection \<open>Selectors\<close>

lemma first_in_none:
  "(first_in P i cs = None) = (\<forall>c\<in>set cs. first_path P c = None)"
  by (induction cs arbitrary: i) (simp_all split: option.splits)

lemma first_path_none:
  "(first_path P n = None) = (\<not> list_ex P (nodes n))"
proof (induction n)
  case (Element tag attrs children)
  then show ?case
    by (simp add: first_in_none list_ex_iff)
qed simp_all

lemma first_in_some:
  "first_in P i cs = Some p \<Longrightarrow>
     \<exists>j q. p = (i + j) # q \<and> j < length cs \<and> first_path P (cs ! j) = Some q"
proof (induction cs arbitrary: i)
  case Nil
  then show ?case by simp
next
  case (Cons c cs)
  show ?case
  proof (cases "first_path P c")
    case None
    with Cons.prems have "first_in P (Suc i) cs = Some p" by simp
    from Cons.IH [OF this] obtain j q where
      "p = (Suc i + j) # q" "j < length cs" "first_path P (cs ! j) = Some q"
      by blast
    then have "p = (i + Suc j) # q \<and> Suc j < length (c # cs) \<and>
        first_path P ((c # cs) ! Suc j) = Some q"
      by simp
    then show ?thesis by blast
  next
    case (Some q)
    with Cons.prems have "p = (i + 0) # q \<and> 0 < length (c # cs) \<and>
        first_path P ((c # cs) ! 0) = Some q"
      by simp
    then show ?thesis by blast
  qed
qed

lemma first_path_node_at:
  "first_path P n = Some p \<Longrightarrow> \<exists>m. node_at n p = Some m \<and> P m"
proof (induction n arbitrary: p)
  case (Element tag attrs children)
  show ?case
  proof (cases "P (Element tag attrs children)")
    case True
    with Element.prems show ?thesis by simp
  next
    case False
    with Element.prems have "first_in P 0 children = Some p" by simp
    from first_in_some [OF this] obtain j q where
      p: "p = j # q" "j < length children" "first_path P (children ! j) = Some q"
      by auto
    then have "children ! j \<in> set children" by simp
    from Element.IH [OF this p(3)] p show ?thesis by simp
  qed
qed (simp_all split: if_splits)

lemma all_in_mem:
  "(p \<in> set (all_in P i cs)) =
     (\<exists>j q. p = (i + j) # q \<and> j < length cs \<and> q \<in> set (all_paths P (cs ! j)))"
proof (induction cs arbitrary: i)
  case Nil
  then show ?case by simp
next
  case (Cons c cs)
  have "(\<exists>j q. p = (i + j) # q \<and> j < length (c # cs) \<and> q \<in> set (all_paths P ((c # cs) ! j))) =
        ((\<exists>q. p = i # q \<and> q \<in> set (all_paths P c)) \<or>
         (\<exists>j q. p = (Suc i + j) # q \<and> j < length cs \<and> q \<in> set (all_paths P (cs ! j))))"
    (is "?L = (?A \<or> ?B)")
  proof
    assume ?L
    then obtain j q where *: "p = (i + j) # q" "j < length (c # cs)"
      "q \<in> set (all_paths P ((c # cs) ! j))"
      by blast
    show "?A \<or> ?B"
    proof (cases j)
      case 0
      with * show ?thesis by simp
    next
      case (Suc k)
      with * have "p = (Suc i + k) # q \<and> k < length cs \<and> q \<in> set (all_paths P (cs ! k))"
        by simp
      then show ?thesis by blast
    qed
  next
    assume "?A \<or> ?B"
    then show ?L
    proof
      assume ?A
      then obtain q where "p = (i + 0) # q \<and> 0 < length (c # cs) \<and>
          q \<in> set (all_paths P ((c # cs) ! 0))"
        by auto
      then show ?L by blast
    next
      assume ?B
      then obtain j q where "p = (i + Suc j) # q \<and> Suc j < length (c # cs) \<and>
          q \<in> set (all_paths P ((c # cs) ! Suc j))"
        by auto
      then show ?L by blast
    qed
  qed
  with Cons.IH [of "Suc i"] show ?case
    by auto
qed

lemma distinct_all_in:
  "(\<And>c. c \<in> set cs \<Longrightarrow> distinct (all_paths P c)) \<Longrightarrow> distinct (all_in P i cs)"
proof (induction cs arbitrary: i)
  case Nil
  then show ?case by simp
next
  case (Cons c cs)
  have "distinct (map ((#) i) (all_paths P c))"
    using Cons.prems [of c] by (simp add: distinct_map)
  moreover have "distinct (all_in P (Suc i) cs)"
    using Cons.prems by (intro Cons.IH) simp
  moreover have "set (map ((#) i) (all_paths P c)) \<inter> set (all_in P (Suc i) cs) = {}"
    by (auto simp: all_in_mem)
  ultimately show ?case by simp
qed

lemma distinct_all_paths: "distinct (all_paths P n)"
proof (induction n)
  case (Element tag attrs children)
  then have "distinct (all_in P 0 children)"
    by (rule distinct_all_in)
  then show ?case
    by (auto simp: all_in_mem)
qed simp_all

lemma distinct_querySelectorAll: "distinct (querySelectorAll P n)"
  by (cases n) (simp_all add: querySelectorAll_def distinct_all_in distinct_all_paths)

lemma page_content_of_none:
  "(page_content_of d = None) =
     (\<not> list_ex (has_id (quirks d) ''page-content'') (nodes (documentElement d)))"
proof (cases "first_path (has_id (quirks d) ''page-content'') (documentElement d)")
  case None
  then show ?thesis
    by (simp add: page_content_of_def document_querySelector_def first_path_none [symmetric])
next
  case (Some p)
  from first_path_node_at [OF this] obtain m where "node_at (documentElement d) p = Some m" by blast
  with Some show ?thesis
    by (simp add: page_content_of_def document_querySelector_def first_path_none [symmetric])
qed

subsection \<open>Attributes under an update\<close>

lemma map_of_set_attr: "map_of (set_attr k v attrs) = (map_of attrs)(k \<mapsto> v)"
  by (induction attrs) (auto simp: fun_eq_iff)

lemma attr_at_Nil [simp]: "attr_at c [] name = getAttribute c name"
  by (simp add: attr_at_def)

lemma attr_at_Cons [simp]:
  "attr_at (Element tag attrs children) (i # p) name =
     (if i < length children then attr_at (children ! i) p name else None)"
  by (simp add: attr_at_def)

lemma attr_at_leaf [simp]:
  "attr_at (Text t) (i # p) name = None" "attr_at (Comment t) (i # p) name = None"
  by (simp_all add: attr_at_def)

lemma attr_at_update_other:
  "q \<noteq> p \<Longrightarrow> attr_at (update_at (setAttribute k v) p c) q name = attr_at c q name"
proof (induction p arbitrary: c q)
  case Nil
  then obtain j r where "q = j # r" by (cases q) auto
  then show ?case
    by (cases c) (simp_all add: setAttribute_def)
next
  case (Cons i p)
  show ?case
  proof (cases c)
    case (Element tag attrs children)
    show ?thesis
    proof (cases q)
      case Nil
      with Element show ?thesis
        by (simp add: getAttribute_def)
    next
      case (Cons j r)
      show ?thesis
      proof (cases "j = i")
        case True
        with Cons Cons.prems have "r \<noteq> p" by simp
        from Cons.IH [OF this, of "children ! i"] Element Cons True show ?thesis
          by simp
      next
        case False
        with Element Cons show ?thesis
          by simp
      qed
    qed
  qed simp_all
qed

lemma attr_at_update_same:
  "attr_at c p k = Some w \<Longrightarrow> attr_at (update_at (setAttribute k v) p c) p k = Some v"
proof (induction p arbitrary: c)
  case Nil
  then show ?case
    by (cases c) (simp_all add: getAttribute_def setAttribute_def map_of_set_attr)
next
  case (Cons i p)
  then show ?case
    by (cases c) (auto split: if_splits)
qed

subsection \<open>The example browser\<close>

lemma ex_html_serialized: "''<!DOCTYPE html>'' @ ex_outerHTML ex_root = ex_html"
  by (simp add: ex_root_def ex_content_def ex_html_def ex_escape_def)

lemma ex_blocked_html_serialized: "ex_outerHTML (documentElement ex_blocked_document) = ex_blocked_html"
  by (simp add: ex_blocked_document_def ex_blocked_html_def ex_escape_def)

lemma ex_quirks_html_serialized: "ex_outerHTML ex_upper_root = ex_quirks_html"
  by (simp add: ex_upper_root_def ex_upper_content_def ex_quirks_html_def ex_escape_def)

lemma ex_sel [simp]:
  "encodeURIComponent ex_browser = Inr"
  "outerHTML ex_browser = ex_outerHTML"
  "resolve_url ex_browser = (\<lambda>v. v)"
  "uuid ex_browser = ex_uuid"
  "getExtension ex_browser = (\<lambda>t. if t = ''image/png'' then Some ''png'' else None)"
  by (simp_all add: ex_browser_def)

lemma ex_clash_sel [simp]:
  "outerHTML ex_clash_browser = ex_outerHTML"
  "resolve_url ex_clash_browser = (\<lambda>v. v)"
  "uuid ex_clash_browser = ex_clash_uuid"
  "getExtension ex_clash_browser = (\<lambda>t. if t = ''image/png'' then Some ''png'' else None)"
  "parseFromString ex_clash_browser = parseFromString ex_browser"
  "fetch_blob ex_clash_browser = fetch_blob ex_browser"
  "fetch_text ex_clash_browser = fetch_text ex_browser"
  "parent_folders ex_clash_browser = parent_folders ex_browser"
  by (simp_all add: ex_clash_browser_def)

lemma ex_parse [simp]:
  "parseFromString ex_browser ex_html = ex_document"
  "parseFromString ex_browser ex_blocked_html = ex_blocked_document"
  "parseFromString ex_browser ex_quirks_html = ex_quirks_document"
  "parseFromString ex_browser ex_strict_html = ex_strict_document"
  by (simp_all add: ex_browser_def)
     (simp_all add: ex_html_def ex_blocked_html_def ex_quirks_html_def ex_strict_html_def)

lemma ex_fetch_text [simp]:
  "fetch_text ex_browser ''/api/download?url=article-1'' = Inr ex_html"
  "fetch_text ex_browser ''/api/download?url=article-2'' = Inr ex_blocked_html"
  "fetch_text ex_browser ''/api/download?url=article-3'' = Inr ex_quirks_html"
  "fetch_text ex_browser ''/api/download?url=article-4'' = Inr ex_strict_html"
  "fetch_text ex_browser ''https://cdn.example/a.css'' = Inr ''p{margin:0}''"
  "fetch_text ex_browser ''https://cdn.example/b.css'' = Inr ''img{border:0}''"
  by (simp_all add: ex_browser_def)

lemma ex_fetch_blob [simp]:
  "fetch_blob ex_browser ''https://cdn.example/1.png'' = Inr (ex_png ''one'')"
  "fetch_blob ex_browser ''https://cdn.example/2.png'' = Inl (FetchError ''404'')"
  "fetch_blob ex_browser ''https://cdn.example/bg.png'' = Inr (ex_png ''background'')"
  "fetch_blob ex_browser ''//cdn.example/gone.png'' = Inl (FetchError ''404'')"
  by (simp_all add: ex_browser_def)

text \<open>
Identifiers and \<^verbatim>\<open>rel\<close> values of the examples, compared without regard to case.
\<close>

lemma ex_same_ignoring_case:
  "same_ignoring_case ''PAGE-CONTENT'' ''page-content''"
  "same_ignoring_case ''Js_Content'' ''js_content''"
  "\<not> same_ignoring_case ''Js_Content'' ''page-content''"
  "\<not> same_ignoring_case ''PAGE-CONTENT'' ''js_content''"
  "\<not> same_ignoring_case ''PAGE-CONTENT'' ''js_tags_preview_toast''"
  "\<not> same_ignoring_case ''PAGE-CONTENT'' ''content_bottom_area''"
  "\<not> same_ignoring_case ''PAGE-CONTENT'' ''js_temp_bottom_area''"
  "\<not> same_ignoring_case ''Js_Content'' ''js_tags_preview_toast''"
  "\<not> same_ignoring_case ''Js_Content'' ''content_bottom_area''"
  "\<not> same_ignoring_case ''Js_Content'' ''js_temp_bottom_area''"
  "same_ignoring_case ''stylesheet'' ''stylesheet''"
  "same_ignoring_case ''StyleSheet'' ''stylesheet''"
  "\<not> same_ignoring_case ''icon'' ''stylesheet''"
  by (simp_all add: same_ignoring_case_def ascii_lower_def)

lemma ex_nodes_blocked:
  "\<not> list_ex (has_id (quirks ex_blocked_document) ''page-content'')
       (nodes (documentElement ex_blocked_document))"
  by (simp add: ex_blocked_document_def has_id_def getAttribute_def)

lemma ex_nodes_found:
  "list_ex (has_id (quirks ex_document) ''page-content'') (nodes (documentElement ex_document))"
  by (simp add: ex_document_def ex_root_def ex_content_def has_id_def getAttribute_def)

lemma ex_nodes_quirks:
  "list_ex (has_id (quirks ex_quirks_document) ''page-content'')
     (nodes (documentElement ex_quirks_document))"
  by (simp add: ex_quirks_document_def ex_upper_root_def ex_upper_content_def has_id_def
        getAttribute_def ex_same_ignoring_case)

lemma ex_nodes_strict:
  "\<not> list_ex (has_id (quirks ex_strict_document) ''page-content'')
       (nodes (documentElement ex_strict_document))"
  by (simp add: ex_strict_document_def ex_upper_root_def ex_upper_content_def has_id_def
        getAttribute_def)

section \<open>Properties of the article downloader\<close>

text \<open>
  Claim C4. When the page has been fetched, the downloader throws the error
  \<^verbatim>\<open>download failed\<close> (\<open>msg_download_failed\<close>) if and only if the parsed document has
  no element that the selector \<^verbatim>\<open>#page-content\<close> matches: no element whose id is
  \<^verbatim>\<open>page-content\<close>, in whatever case of its letters when the document is in quirks
  mode. When the document has such an element, the downloader returns the fetched text
  as it is.
\<close>

theorem downloadArticleHTML_container:
  assumes "encodeURIComponent B articleURL = Inr encoded"
    and "fetch_text B (''/api/download?url='' @ encoded) = Inr fullHTML"
  shows "(snd (downloadArticleHTML B articleURL title) = Inl (Error msg_download_failed)) =
           (\<not> list_ex (has_id (quirks (parseFromString B fullHTML)) ''page-content'')
                (nodes (documentElement (parseFromString B fullHTML)))) \<and>
         (list_ex (has_id (quirks (parseFromString B fullHTML)) ''page-content'')
            (nodes (documentElement (parseFromString B fullHTML))) \<longrightarrow>
            snd (downloadArticleHTML B articleURL title) = Inr fullHTML)"
  using assms
  by (auto simp: downloadArticleHTML_def Let_def document_querySelector_def
             first_path_none [symmetric]
           split: option.splits)

text \<open>
  The four pages: the first has the container and is returned; the second has none; the
  third, in quirks mode, has the container under the id \<^verbatim>\<open>PAGE-CONTENT\<close> and is
  returned; in the fourth, which has a doctype, that id is not matched.
\<close>

theorem downloadArticleHTML_container_witness:
  "snd (downloadArticleHTML ex_browser ''article-1'' None) = Inr ex_html \<and>
   snd (downloadArticleHTML ex_browser ''article-2'' None) = Inl (Error msg_download_failed) \<and>
   snd (downloadArticleHTML ex_browser ''article-3'' None) = Inr ex_quirks_html \<and>
   snd (downloadArticleHTML ex_browser ''article-4'' None) = Inl (Error msg_download_failed)"
  using downloadArticleHTML_container [of ex_browser "''article-1''" "''article-1''" ex_html None]
    downloadArticleHTML_container [of ex_browser "''article-2''" "''article-2''" ex_blocked_html None]
    downloadArticleHTML_container [of ex_browser "''article-3''" "''article-3''" ex_quirks_html None]
    downloadArticleHTML_container [of ex_browser "''article-4''" "''article-4''" ex_strict_html None]
  by (simp add: ex_nodes_blocked ex_nodes_found ex_nodes_quirks ex_nodes_strict)

text \<open>
  Claim C9. What the downloader returns or throws is the same for any two titles, given
  or not: the title reaches the console only.
\<close>

theorem downloadArticleHTML_title:
  "snd (downloadArticleHTML B articleURL title) = snd (downloadArticleHTML B articleURL title')"
  by (simp add: downloadArticleHTML_def Let_def split: sum.splits option.splits)

text \<open>
On the page without the container the title is printed, and the failure is the same.
\<close>

theorem downloadArticleHTML_title_witness:
  "snd (downloadArticleHTML ex_browser ''article-2'' (Some ''An article'')) =
     snd (downloadArticleHTML ex_browser ''article-2'' None) \<and>
   fst (downloadArticleHTML ex_browser ''article-2'' (Some ''An article'')) = [Info [''An article'']] \<and>
   fst (downloadArticleHTML ex_browser ''article-2'' None) = []"
  using downloadArticleHTML_title [of ex_browser "''article-2''" "Some ''An article''" None]
  by (simp add: downloadArticleHTML_def document_querySelector_def ex_blocked_document_def
        has_id_def getAttribute_def)

section \<open>Facts about the asset packager\<close>

subsection \<open>The archive\<close>

lemma folderAdd_keep: "z n = Some e \<Longrightarrow> folderAdd a z n = Some e"
  by (auto simp: folderAdd_def)

lemma fold_folderAdd_keep: "z n = Some e \<Longrightarrow> fold folderAdd fs z n = Some e"
  by (induction fs arbitrary: z) (simp_all add: folderAdd_keep)

lemma zip_file_same: "zip_file B z n d n = Some (File d)"
  by (simp add: zip_file_def)

lemma zip_file_keep: "n' \<noteq> n \<Longrightarrow> z n' = Some e \<Longrightarrow> zip_file B z n d n' = Some e"
  by (simp add: zip_file_def fold_folderAdd_keep)

lemma drawn_from_mono: "drawn_from B k' n \<Longrightarrow> k \<le> k' \<Longrightarrow> drawn_from B k n"
  by (auto simp: drawn_from_def intro: order_trans)

lemma drawn_from_self: "drawn_from B k (asset_path (uuid B k) e)"
  by (auto simp: drawn_from_def)

lemma not_drawn_later:
  "unique_names B \<Longrightarrow> j < k \<Longrightarrow> \<not> drawn_from B k (asset_path (uuid B j) e)"
  by (auto simp: drawn_from_def unique_names_def)

lemma zip_file_not_drawn:
  "z n = Some e \<Longrightarrow> \<not> drawn_from B k n \<Longrightarrow>
     zip_file B z (asset_path (uuid B k) ext) d n = Some e"
  using drawn_from_self [of B k ext] by (intro zip_file_keep) auto

lemma css_path: "''assets/'' @ name @ ''.css'' = asset_path name (Some ''css'')"
  by (simp add: asset_path_def)

lemma asset_path_not_index: "asset_path name ext \<noteq> ''index.html''"
  by (simp add: asset_path_def)

lemma not_drawn_index: "\<not> drawn_from B k ''index.html''"
  using asset_path_not_index by (auto simp: drawn_from_def) metis

text \<open>
Each step keeps the entries whose names it cannot draw, and never gives a name back.
\<close>

lemma img_step_keeps:
  "draws st \<le> draws (img_step B p st)"
  "jszip st n = Some e \<Longrightarrow> \<not> drawn_from B (draws st) n \<Longrightarrow> jszip (img_step B p st) n = Some e"
  by (auto simp: img_step_def Let_def zip_file_not_drawn split: sum.splits)

lemma bg_step_keeps:
  "draws st \<le> draws (bg_step B u st)"
  "jszip st n = Some e \<Longrightarrow> \<not> drawn_from B (draws st) n \<Longrightarrow> jszip (bg_step B u st) n = Some e"
  by (auto simp: bg_step_def Let_def zip_file_not_drawn split: sum.splits)

lemma css_step_keeps:
  "draws st \<le> draws (css_step B l st)"
  "jszip st n = Some e \<Longrightarrow> \<not> drawn_from B (draws st) n \<Longrightarrow> jszip (css_step B l st) n = Some e"
  by (auto simp: css_step_def Let_def css_path zip_file_not_drawn simp del: append.simps split: sum.splits)

lemma fold_keeps:
  assumes "\<And>x st. draws st \<le> draws (step x st)"
    and "\<And>x st n e. jszip st n = Some e \<Longrightarrow> \<not> drawn_from B (draws st) n \<Longrightarrow>
           jszip (step x st) n = Some e"
  shows "draws st \<le> draws (fold step xs st) \<and>
         (jszip st n = Some e \<longrightarrow> \<not> drawn_from B (draws st) n \<longrightarrow>
            jszip (fold step xs st) n = Some e)"
proof (induction xs arbitrary: st)
  case Nil
  then show ?case by simp
next
  case (Cons x xs)
  have le: "draws st \<le> draws (step x st)" by (rule assms(1))
  from Cons.IH [of "step x st"] le
  have "draws st \<le> draws (fold step (x # xs) st)" by simp
  moreover have "jszip (fold step (x # xs) st) n = Some e"
    if "jszip st n = Some e" "\<not> drawn_from B (draws st) n"
  proof -
    from that have "jszip (step x st) n = Some e" by (rule assms(2))
    moreover from that(2) le have "\<not> drawn_from B (draws (step x st)) n"
      by (blast intro: drawn_from_mono)
    ultimately show ?thesis
      using Cons.IH [of "step x st"] by simp
  qed
  ultimately show ?case by blast
qed

lemma download_images_keeps:
  "draws st \<le> draws (download_images B st)"
  "jszip st n = Some e \<Longrightarrow> \<not> drawn_from B (draws st) n \<Longrightarrow> jszip (download_images B st) n = Some e"
  using fold_keeps [where step = "img_step B" and B = B and st = st and n = n and e = e] img_step_keeps
  by (simp_all add: download_images_def)

lemma download_backgrounds_keeps:
  "draws st \<le> draws (download_backgrounds B st)"
  "jszip st n = Some e \<Longrightarrow> \<not> drawn_from B (draws st) n \<Longrightarrow>
     jszip (download_backgrounds B st) n = Some e"
  using fold_keeps [where step = "bg_step B" and B = B and n = n and e = e
      and st = "st\<lparr>pageContentHTML := outerHTML B (pageContent st)\<rparr>"]
    bg_step_keeps
  by (simp_all add: download_backgrounds_def Let_def)

lemma download_stylesheets_keeps:
  "draws st \<le> draws (download_stylesheets B d st)"
  "jszip st n = Some e \<Longrightarrow> \<not> drawn_from B (draws st) n \<Longrightarrow>
     jszip (download_stylesheets B d st) n = Some e"
  using fold_keeps [where step = "css_step B" and B = B and st = st and n = n and e = e] css_step_keeps
  by (simp_all add: download_stylesheets_def)

text \<open>
A name that is a file stays a file, whatever is stored later.
\<close>

lemma zip_file_is_file:
  "is_file z name \<Longrightarrow> is_file (zip_file B z name' data) name"
  by (cases "name' = name") (auto simp: is_file_def zip_file_same zip_file_keep)

lemma zip_file_is_file_same: "is_file (zip_file B z name data) name"
  by (simp add: is_file_def zip_file_same)

subsection \<open>The loop over the images\<close>

lemma image_blob_attr:
  "image_blob B c p = Some b \<Longrightarrow> \<exists>w. attr_at c p ''src'' = Some w"
  by (cases "attr_at c p ''src''") (simp_all add: image_blob_def url_property_def)

lemma img_step_stored:
  assumes "image_blob B (pageContent st) p = Some b"
  shows "pageContent (img_step B p st) =
           update_at (setAttribute ''src'' (''./'' @ blob_path B (draws st) b)) p (pageContent st)"
    and "jszip (img_step B p st) =
           zip_file B (jszip st) (blob_path B (draws st) b) (BlobData b)"
    and "draws (img_step B p st) = Suc (draws st)"
  using assms
  by (auto simp: img_step_def image_blob_def blob_path_def Let_def split: if_splits sum.splits)

lemma img_step_skipped:
  assumes "image_blob B (pageContent st) p = None"
  shows "pageContent (img_step B p st) = pageContent st"
    and "jszip (img_step B p st) = jszip st"
    and "draws (img_step B p st) = draws st"
  using assms
  by (auto simp: img_step_def image_blob_def Let_def split: if_splits sum.splits)

lemma img_step_other:
  "q \<noteq> p \<Longrightarrow> attr_at (pageContent (img_step B p st)) q name = attr_at (pageContent st) q name"
  by (cases "image_blob B (pageContent st) p")
     (simp_all add: img_step_stored img_step_skipped attr_at_update_other)

lemma img_loop:
  assumes "distinct ps"
  shows "draws (fold (img_step B) ps st) =
           draws st + length (filter (\<lambda>p. image_blob B (pageContent st) p \<noteq> None) ps) \<and>
         (\<forall>q name. q \<notin> set (filter (\<lambda>p. image_blob B (pageContent st) p \<noteq> None) ps) \<longrightarrow>
            attr_at (pageContent (fold (img_step B) ps st)) q name = attr_at (pageContent st) q name) \<and>
         (\<forall>i b. i < length (filter (\<lambda>p. image_blob B (pageContent st) p \<noteq> None) ps) \<longrightarrow>
            image_blob B (pageContent st)
              (filter (\<lambda>p. image_blob B (pageContent st) p \<noteq> None) ps ! i) = Some b \<longrightarrow>
            attr_at (pageContent (fold (img_step B) ps st))
              (filter (\<lambda>p. image_blob B (pageContent st) p \<noteq> None) ps ! i) ''src'' =
              Some (''./'' @ blob_path B (draws st + i) b) \<and>
            (unique_names B \<longrightarrow>
               jszip (fold (img_step B) ps st) (blob_path B (draws st + i) b) = Some (File (BlobData b))))"
  using assms
proof (induction ps arbitrary: st)
  case Nil
  then show ?case by simp
next
  case (Cons p ps)
  define c where "c = pageContent st"
  define st1 where "st1 = img_step B p st"
  define c1 where "c1 = pageContent st1"
  define fs1 where "fs1 = filter (\<lambda>q. image_blob B c q \<noteq> None) ps"
  define st' where "st' = fold (img_step B) ps st1"
  from Cons.prems have p: "p \<notin> set ps" and dist: "distinct ps" by simp_all
  have other: "attr_at c1 q name = attr_at c q name" if "q \<noteq> p" for q name
    using that by (simp add: c1_def st1_def c_def img_step_other)
  have blob_same: "image_blob B c1 q = image_blob B c q" if "q \<in> set ps" for q
  proof -
    from that p have "q \<noteq> p" by auto
    then have "attr_at c1 q ''src'' = attr_at c q ''src''" by (rule other)
    then show ?thesis by (simp add: image_blob_def)
  qed
  have filt: "filter (\<lambda>q. image_blob B c1 q \<noteq> None) ps = fs1"
    unfolding fs1_def by (rule filter_cong) (simp_all add: blob_same)
  have p_fs1: "p \<notin> set fs1" using p by (simp add: fs1_def)
  have fs1_ps: "set fs1 \<subseteq> set ps" by (auto simp: fs1_def)
  note IH = Cons.IH [OF dist, of st1, folded c1_def st'_def, unfolded filt]
  have fold: "fold (img_step B) (p # ps) st = st'"
    by (simp add: st'_def st1_def)
  show ?case
  proof (cases "image_blob B c p")
    case None
    then have same: "c1 = c" "jszip st1 = jszip st" "draws st1 = draws st"
      by (simp_all add: c1_def st1_def c_def img_step_skipped)
    have fs: "filter (\<lambda>q. image_blob B c q \<noteq> None) (p # ps) = fs1"
      using None by (simp add: fs1_def)
    from IH show ?thesis
      unfolding fold c_def [symmetric] fs same by simp
  next
    case (Some b0)
    then have st1: "c1 = update_at (setAttribute ''src'' (''./'' @ blob_path B (draws st) b0)) p c"
      "jszip st1 = zip_file B (jszip st) (blob_path B (draws st) b0) (BlobData b0)"
      "draws st1 = Suc (draws st)"
      by (simp_all add: c1_def st1_def c_def img_step_stored)
    have fs: "filter (\<lambda>q. image_blob B c q \<noteq> None) (p # ps) = p # fs1"
      using Some by (simp add: fs1_def)
    from image_blob_attr [OF Some] obtain w where w: "attr_at c p ''src'' = Some w" ..
    have at_p: "attr_at c1 p ''src'' = Some (''./'' @ blob_path B (draws st) b0)"
      unfolding st1(1) using w by (rule attr_at_update_same)
    have A: "draws st' = draws st + length (p # fs1)"
      using IH st1(3) by simp
    have B: "attr_at (pageContent st') q name = attr_at c q name" if "q \<notin> set (p # fs1)" for q name
    proof -
      from that have "q \<notin> set fs1" "q \<noteq> p" by simp_all
      with IH other show ?thesis by simp
    qed
    have C: "attr_at (pageContent st') ((p # fs1) ! i) ''src'' = Some (''./'' @ blob_path B (draws st + i) b) \<and>
             (unique_names B \<longrightarrow> jszip st' (blob_path B (draws st + i) b) = Some (File (BlobData b)))"
      if "i < length (p # fs1)" "image_blob B c ((p # fs1) ! i) = Some b" for i b
    proof (cases i)
      case 0
      with that Some have b: "b = b0" by simp
      have "attr_at (pageContent st') p ''src'' = attr_at c1 p ''src''"
        using IH p_fs1 by simp
      with at_p have 1: "attr_at (pageContent st') p ''src'' = Some (''./'' @ blob_path B (draws st) b0)"
        by simp
      have 2: "jszip st' (blob_path B (draws st) b0) = Some (File (BlobData b0))" if "unique_names B"
      proof -
        have "jszip st1 (blob_path B (draws st) b0) = Some (File (BlobData b0))"
          by (simp add: st1(2) zip_file_same)
        moreover have "\<not> drawn_from B (draws st1) (blob_path B (draws st) b0)"
          unfolding blob_path_def st1(3) using that by (intro not_drawn_later) simp_all
        ultimately show ?thesis
          unfolding st'_def
          using fold_keeps [where step = "img_step B" and B = B and st = st1 and xs = ps] img_step_keeps
          by blast
      qed
      from 1 2 show ?thesis by (simp add: 0 b)
    next
      case (Suc k)
      with that have k: "k < length fs1" "image_blob B c (fs1 ! k) = Some b" by simp_all
      then have "fs1 ! k \<in> set ps" using fs1_ps by (auto simp: subset_iff)
      with k(2) have "image_blob B c1 (fs1 ! k) = Some b" by (simp add: blob_same)
      with IH k(1) st1(3) show ?thesis by (simp add: Suc)
    qed
    from A B C show ?thesis
      unfolding fold c_def [symmetric] fs by blast
  qed
qed

lemma img_step_requests:
  "requests (img_step B p st) =
     requests st @ filter (\<lambda>u. u \<noteq> []) [url_property B (attr_at (pageContent st) p ''src'')]"
  by (simp add: img_step_def Let_def split: sum.splits)

lemma img_loop_requests:
  "distinct ps \<Longrightarrow>
   requests (fold (img_step B) ps st) =
     requests st @ filter (\<lambda>u. u \<noteq> []) (map (\<lambda>p. url_property B (attr_at (pageContent st) p ''src'')) ps)"
proof (induction ps arbitrary: st)
  case Nil
  then show ?case by simp
next
  case (Cons p ps)
  then have p: "p \<notin> set ps" and dist: "distinct ps" by simp_all
  have "map (\<lambda>q. url_property B (attr_at (pageContent (img_step B p st)) q ''src'')) ps =
        map (\<lambda>q. url_property B (attr_at (pageContent st) q ''src'')) ps"
  proof (rule map_cong [OF refl])
    fix q assume "q \<in> set ps"
    with p have "q \<noteq> p" by auto
    then show "url_property B (attr_at (pageContent (img_step B p st)) q ''src'') =
               url_property B (attr_at (pageContent st) q ''src'')"
      by (simp add: img_step_other)
  qed
  with Cons.IH [OF dist, of "img_step B p st"] show ?case
    by (simp add: img_step_requests)
qed

lemma fetched_length:
  "length (filter (\<lambda>p. image_blob B c p \<noteq> None) ps) =
     length (filter (\<lambda>u. case fetch_blob B u of Inr b \<Rightarrow> True | Inl e \<Rightarrow> False)
       (filter (\<lambda>u. u \<noteq> []) (map (\<lambda>p. url_property B (attr_at c p ''src'')) ps)))"
  by (induction ps) (auto simp: image_blob_def Let_def split: sum.splits)

subsection \<open>The loop over the background images\<close>

lemma fold_same:
  "(\<And>x st. f (step x st) = f st) \<Longrightarrow> f (fold step xs st) = f st"
  by (induction xs arbitrary: st) simp_all

lemma bg_step_fields:
  "pageContent (bg_step B u st) = pageContent st"
  "pageContentHTML (bg_step B u st) = pageContentHTML st"
  "localLinks (bg_step B u st) = localLinks st"
  "requests (bg_step B u st) = requests st @ [u]"
  by (simp_all add: bg_step_def Let_def split: sum.splits)

lemma css_step_fields:
  "pageContent (css_step B l st) = pageContent st"
  "pageContentHTML (css_step B l st) = pageContentHTML st"
  "url2pathMap (css_step B l st) = url2pathMap st"
  "requests (css_step B l st) = requests st @ [url_property B (getAttribute l ''href'')]"
  by (simp_all add: css_step_def Let_def split: sum.splits)

lemma fold_requests:
  "(\<And>x st. requests (step x st) = requests st @ [f x]) \<Longrightarrow>
     requests (fold step xs st) = requests st @ map f xs"
  by (induction xs arbitrary: st) simp_all

lemma download_backgrounds_fields:
  "pageContent (download_backgrounds B st) = pageContent st"
  "localLinks (download_backgrounds B st) = localLinks st"
  "requests (download_backgrounds B st) = requests st @ bgImageURLs (outerHTML B (pageContent st))"
  "pageContentHTML (download_backgrounds B st) =
     replaceAll_bg (rewrite_bg (url2pathMap (download_backgrounds B st))) (outerHTML B (pageContent st))"
proof -
  let ?st1 = "st\<lparr>pageContentHTML := outerHTML B (pageContent st)\<rparr>"
  let ?us = "bgImageURLs (outerHTML B (pageContent st))"
  have 1: "pageContent (fold (bg_step B) ?us ?st1) = pageContent ?st1"
    by (rule fold_same) (rule bg_step_fields)
  have 2: "pageContentHTML (fold (bg_step B) ?us ?st1) = pageContentHTML ?st1"
    by (rule fold_same) (rule bg_step_fields)
  have 3: "localLinks (fold (bg_step B) ?us ?st1) = localLinks ?st1"
    by (rule fold_same) (rule bg_step_fields)
  have 4: "requests (fold (bg_step B) ?us ?st1) = requests ?st1 @ map (\<lambda>u. u) ?us"
    by (rule fold_requests) (rule bg_step_fields)
  show "pageContent (download_backgrounds B st) = pageContent st"
    using 1 by (simp add: download_backgrounds_def Let_def)
  show "localLinks (download_backgrounds B st) = localLinks st"
    using 3 by (simp add: download_backgrounds_def Let_def)
  show "requests (download_backgrounds B st) = requests st @ ?us"
    using 4 by (simp add: download_backgrounds_def Let_def)
  show "pageContentHTML (download_backgrounds B st) =
     replaceAll_bg (rewrite_bg (url2pathMap (download_backgrounds B st))) (outerHTML B (pageContent st))"
    using 2 by (simp add: download_backgrounds_def Let_def)
qed

lemma download_stylesheets_fields:
  "pageContent (download_stylesheets B d st) = pageContent st"
  "pageContentHTML (download_stylesheets B d st) = pageContentHTML st"
  "url2pathMap (download_stylesheets B d st) = url2pathMap st"
  "requests (download_stylesheets B d st) =
     requests st @ map (\<lambda>l. url_property B (getAttribute l ''href'')) (head_links False d)"
proof -
  show "pageContent (download_stylesheets B d st) = pageContent st"
    unfolding download_stylesheets_def by (rule fold_same) (rule css_step_fields)
  show "pageContentHTML (download_stylesheets B d st) = pageContentHTML st"
    unfolding download_stylesheets_def by (rule fold_same) (rule css_step_fields)
  show "url2pathMap (download_stylesheets B d st) = url2pathMap st"
    unfolding download_stylesheets_def by (rule fold_same) (rule css_step_fields)
  show "requests (download_stylesheets B d st) =
     requests st @ map (\<lambda>l. url_property B (getAttribute l ''href'')) (head_links False d)"
    unfolding download_stylesheets_def by (rule fold_requests) (rule css_step_fields)
qed

lemma set_add_distinct: "distinct urls \<Longrightarrow> distinct (set_add u urls)"
  by (simp add: set_add_def)

lemma collect_distinct:
  "distinct acc \<Longrightarrow>
   distinct (fold (\<lambda>g urls. case g of Plain c \<Rightarrow> urls | BgRef p1 url p3 \<Rightarrow> set_add url urls) segs acc)"
  by (induction segs arbitrary: acc) (simp_all add: set_add_distinct split: seg.splits)

lemma collect_set:
  "set (fold (\<lambda>g urls. case g of Plain c \<Rightarrow> urls | BgRef p1 url p3 \<Rightarrow> set_add url urls) segs acc) =
     set acc \<union> {u. \<exists>p1 p3. BgRef p1 u p3 \<in> set segs}"
  by (induction segs arbitrary: acc) (auto simp: set_add_def split: seg.splits)

lemma distinct_bgImageURLs: "distinct (bgImageURLs s)"
  by (simp add: bgImageURLs_def collect_distinct)

lemma set_bgImageURLs: "set (bgImageURLs s) = {u. \<exists>p1 p3. BgRef p1 u p3 \<in> set (bg_scan s)}"
  by (simp add: bgImageURLs_def collect_set)

lemma bg_step_map_other: "v \<noteq> u \<Longrightarrow> url2pathMap (bg_step B u st) v = url2pathMap st v"
  by (simp add: bg_step_def Let_def split: sum.splits)

lemma bg_loop_other:
  "v \<notin> set us \<Longrightarrow> url2pathMap (fold (bg_step B) us st) v = url2pathMap st v"
  by (induction us arbitrary: st) (simp_all add: bg_step_map_other)

lemma bg_loop_keeps:
  "draws st \<le> draws (fold (bg_step B) us st)"
  "jszip st n = Some e \<Longrightarrow> \<not> drawn_from B (draws st) n \<Longrightarrow> jszip (fold (bg_step B) us st) n = Some e"
  using fold_keeps [where step = "bg_step B" and B = B and st = st and n = n and e = e and xs = us]
    bg_step_keeps
  by simp_all

lemma bg_loop:
  assumes "distinct us" and "u \<in> set us"
  shows "case fetch_blob B u of
           Inl e \<Rightarrow> url2pathMap (fold (bg_step B) us st) u = url2pathMap st u
         | Inr b \<Rightarrow>
             (\<exists>k. draws st \<le> k \<and> k < draws (fold (bg_step B) us st) \<and>
                  url2pathMap (fold (bg_step B) us st) u = Some (blob_path B k b) \<and>
                  (unique_names B \<longrightarrow>
                     jszip (fold (bg_step B) us st) (blob_path B k b) = Some (File (BlobData b))))"
  using assms
proof (induction us arbitrary: st)
  case Nil
  then show ?case by simp
next
  case (Cons v us)
  define st1 where "st1 = bg_step B v st"
  have fold: "fold (bg_step B) (v # us) st = fold (bg_step B) us st1"
    by (simp add: st1_def)
  have le1: "draws st \<le> draws st1"
    unfolding st1_def by (rule bg_step_keeps)
  show ?case
  proof (cases "u = v")
    case True
    with Cons.prems have notin: "u \<notin> set us" by simp
    have map: "url2pathMap (fold (bg_step B) us st1) u = url2pathMap st1 u"
      using notin by (rule bg_loop_other)
    show ?thesis
    proof (cases "fetch_blob B u")
      case (Inl e)
      then have "url2pathMap st1 u = url2pathMap st u"
        by (simp add: st1_def True [symmetric] bg_step_def)
      with Inl map show ?thesis unfolding fold by simp
    next
      case (Inr b)
      then have st1: "url2pathMap st1 u = Some (blob_path B (draws st) b)"
        "jszip st1 (blob_path B (draws st) b) = Some (File (BlobData b))"
        "draws st1 = Suc (draws st)"
        by (simp_all add: st1_def True [symmetric] bg_step_def Let_def blob_path_def zip_file_same)
      have lt: "draws st < draws (fold (bg_step B) us st1)"
        using bg_loop_keeps(1) [of st1 B us] st1(3) by simp
      have "jszip (fold (bg_step B) us st1) (blob_path B (draws st) b) = Some (File (BlobData b))"
        if "unique_names B"
      proof -
        have "\<not> drawn_from B (draws st1) (blob_path B (draws st) b)"
          unfolding blob_path_def st1(3) using that by (intro not_drawn_later) simp_all
        with st1(2) show ?thesis by (rule bg_loop_keeps(2))
      qed
      with map st1(1) lt have "draws st \<le> draws st \<and> draws st < draws (fold (bg_step B) us st1) \<and>
          url2pathMap (fold (bg_step B) us st1) u = Some (blob_path B (draws st) b) \<and>
          (unique_names B \<longrightarrow>
             jszip (fold (bg_step B) us st1) (blob_path B (draws st) b) = Some (File (BlobData b)))"
        by simp
      then show ?thesis
        unfolding fold using Inr by simp blast
    qed
  next
    case False
    with Cons.prems have "distinct us" "u \<in> set us" by simp_all
    note IH = Cons.IH [OF this, of st1]
    have same: "url2pathMap st1 u = url2pathMap st u"
      unfolding st1_def using False by (rule bg_step_map_other)
    show ?thesis
    proof (cases "fetch_blob B u")
      case (Inl e)
      with IH same show ?thesis unfolding fold by simp
    next
      case (Inr b)
      with IH obtain k where "draws st1 \<le> k" "k < draws (fold (bg_step B) us st1)"
        "url2pathMap (fold (bg_step B) us st1) u = Some (blob_path B k b)"
        "unique_names B \<longrightarrow>
           jszip (fold (bg_step B) us st1) (blob_path B k b) = Some (File (BlobData b))"
        by auto
      with le1 have "draws st \<le> k \<and> k < draws (fold (bg_step B) us st1) \<and>
          url2pathMap (fold (bg_step B) us st1) u = Some (blob_path B k b) \<and>
          (unique_names B \<longrightarrow>
             jszip (fold (bg_step B) us st1) (blob_path B k b) = Some (File (BlobData b)))"
        by simp
      then show ?thesis
        unfolding fold using Inr by simp blast
    qed
  qed
qed

lemma count_list_distinct: "distinct xs \<Longrightarrow> x \<in> set xs \<Longrightarrow> count_list xs x = 1"
  by (induction xs) (auto simp: count_list_0_iff)

subsection \<open>The whole call\<close>

lemma initial_state_fields:
  "pageContent (initial_state c zip_arg) = c"
  "draws (initial_state c zip_arg) = 0"
  "requests (initial_state c zip_arg) = []"
  "url2pathMap (initial_state c zip_arg) = Map.empty"
  "localLinks (initial_state c zip_arg) = []"
  by (simp_all add: initial_state_def)

lemma pack_content_fields:
  "pageContent (pack_content B d pc n zip_arg) =
     pageContent (download_images B (initial_state (clean (quirks d) n) zip_arg))"
  "pageContentHTML (pack_content B d pc n zip_arg) =
     replaceAll_bg (rewrite_bg (url2pathMap (pack_content B d pc n zip_arg)))
       (outerHTML B (pageContent (pack_content B d pc n zip_arg)))"
  "jszip (pack_content B d pc n zip_arg) ''index.html'' =
     Some (File (TextData (indexHTML (localLinks (pack_content B d pc n zip_arg))
                                     (pageContentHTML (pack_content B d pc n zip_arg)))))"
  by (simp_all add: pack_content_def Let_def download_backgrounds_fields download_stylesheets_fields
        zip_file_same)

text \<open>
  \<^verbatim>\<open>index.html\<close> with the template and the second replacement written out: around the
  links, the serialized content in which each match of the pattern has its URL replaced
  by what \<^verbatim>\<open>url2pathMap\<close> has for it.
\<close>

lemma pack_content_index:
  "jszip (pack_content B d pc n zip_arg) ''index.html'' =
     Some (File (TextData
       (index_head @ localLinks (pack_content B d pc n zip_arg) @ index_middle @
        concat (map (\<lambda>g. case g of
                            Plain c \<Rightarrow> [c]
                          | BgRef p1 u p3 \<Rightarrow>
                              p1 @ (case url2pathMap (pack_content B d pc n zip_arg) u of
                                      Some path \<Rightarrow> ''./'' @ path
                                    | None \<Rightarrow> u) @ p3)
                    (bg_scan (outerHTML B (pageContent (pack_content B d pc n zip_arg))))) @
        index_tail)))"
proof -
  have rew: "rewrite_bg m p1 u p3 = p1 @ (case m u of Some path \<Rightarrow> ''./'' @ path | None \<Rightarrow> u) @ p3"
    for m p1 u p3
    by (simp add: rewrite_bg_def split: option.splits)
  have "replaceAll_bg (rewrite_bg m) s =
      concat (map (\<lambda>g. case g of
                          Plain c \<Rightarrow> [c]
                        | BgRef p1 u p3 \<Rightarrow> p1 @ (case m u of Some path \<Rightarrow> ''./'' @ path | None \<Rightarrow> u) @ p3)
                  (bg_scan s))" for m s
    unfolding replaceAll_bg_def
    by (intro arg_cong [where f = concat] map_cong refl) (simp add: rew split: seg.splits)
  then show ?thesis
    by (simp add: pack_content_fields indexHTML_def)
qed

lemma pack_content_keeps:
  assumes "jszip (download_images B (initial_state (clean (quirks d) n) zip_arg)) name = Some e"
    and "\<not> drawn_from B (draws (download_images B (initial_state (clean (quirks d) n) zip_arg))) name"
    and "name \<noteq> ''index.html''"
  shows "jszip (pack_content B d pc n zip_arg) name = Some e"
proof -
  define st1 where "st1 = download_images B (initial_state (clean (quirks d) n) zip_arg)"
  define st2 where "st2 = download_backgrounds B st1"
  define st3 where "st3 = download_stylesheets B (update_at (\<lambda>x. pageContent st2) pc (documentElement d)) st2"
  have 1: "jszip st1 name = Some e" "\<not> drawn_from B (draws st1) name"
    using assms(1,2) by (simp_all add: st1_def)
  have "draws st1 \<le> draws st2"
    unfolding st2_def by (rule download_backgrounds_keeps)
  with 1(2) have 2: "\<not> drawn_from B (draws st2) name"
    by (blast intro: drawn_from_mono)
  from 1 have "jszip st2 name = Some e"
    unfolding st2_def by (rule download_backgrounds_keeps)
  then have 3: "jszip st3 name = Some e"
    unfolding st3_def using 2 by (rule download_stylesheets_keeps)
  have "jszip (pack_content B d pc n zip_arg) name =
          zip_file B (jszip st3) ''index.html'' (TextData (indexHTML (localLinks st3) (pageContentHTML st3))) name"
    by (simp add: pack_content_def Let_def st1_def st2_def st3_def)
  with 3 assms(3) show ?thesis
    by (simp add: zip_file_keep)
qed

text \<open>
  The images in the result of the call: \<open>c\<close> is the content after the removals, \<open>imgs\<close>
  its images with a \<^verbatim>\<open>src\<close>, \<open>fetched\<close> those of them whose request is answered.
\<close>

lemma pack_content_images:
  assumes c: "c = clean (quirks d) n"
    and imgs: "imgs = querySelectorAll img_with_src c"
    and fetched: "fetched = filter (\<lambda>p. image_blob B c p \<noteq> None) imgs"
    and st: "st = pack_content B d pc n zip_arg"
  shows "q \<notin> set fetched \<Longrightarrow> attr_at (pageContent st) q name = attr_at c q name"
    and "i < length fetched \<Longrightarrow> \<exists>b. image_blob B c (fetched ! i) = Some b"
    and "i < length fetched \<Longrightarrow> image_blob B c (fetched ! i) = Some b \<Longrightarrow>
           attr_at (pageContent st) (fetched ! i) ''src'' = Some (''./'' @ blob_path B i b)"
    and "i < length fetched \<Longrightarrow> image_blob B c (fetched ! i) = Some b \<Longrightarrow> unique_names B \<Longrightarrow>
           jszip st (blob_path B i b) = Some (File (BlobData b))"
proof -
  define st0 where "st0 = initial_state c zip_arg"
  define st1 where "st1 = download_images B st0"
  have st0: "pageContent st0 = c" "draws st0 = 0"
    by (simp_all add: st0_def initial_state_fields)
  have "distinct imgs"
    unfolding imgs by (rule distinct_querySelectorAll)
  from img_loop [OF this, of B st0]
  have loop:
    "draws st1 = length fetched"
    "\<And>q name. q \<notin> set fetched \<Longrightarrow> attr_at (pageContent st1) q name = attr_at c q name"
    "\<And>i b. i < length fetched \<Longrightarrow> image_blob B c (fetched ! i) = Some b \<Longrightarrow>
       attr_at (pageContent st1) (fetched ! i) ''src'' = Some (''./'' @ blob_path B i b) \<and>
       (unique_names B \<longrightarrow> jszip st1 (blob_path B i b) = Some (File (BlobData b)))"
    unfolding st1_def download_images_def st0 imgs [symmetric] fetched [symmetric]
    by simp_all
  have content: "pageContent st = pageContent st1"
    by (simp add: st st1_def st0_def c pack_content_fields)
  show "attr_at (pageContent st) q name = attr_at c q name" if "q \<notin> set fetched"
    using that by (simp add: content loop(2))
  show "\<exists>b. image_blob B c (fetched ! i) = Some b" if "i < length fetched"
  proof -
    from that have "fetched ! i \<in> set fetched" by simp
    then show ?thesis by (auto simp: fetched)
  qed
  show "attr_at (pageContent st) (fetched ! i) ''src'' = Some (''./'' @ blob_path B i b)"
    if "i < length fetched" "image_blob B c (fetched ! i) = Some b"
    using loop(3) [OF that] by (simp add: content)
  show "jszip st (blob_path B i b) = Some (File (BlobData b))"
    if i: "i < length fetched" and b: "image_blob B c (fetched ! i) = Some b" and names: "unique_names B"
  proof -
    from loop(3) [OF i b] names have 2: "jszip st1 (blob_path B i b) = Some (File (BlobData b))"
      by simp
    have "\<not> drawn_from B (draws st1) (blob_path B i b)"
      unfolding blob_path_def loop(1) using names i by (rule not_drawn_later)
    with 2 show ?thesis
      unfolding st st1_def st0_def c
      by (rule pack_content_keeps) (simp add: blob_path_def asset_path_not_index)
  qed
qed

lemma pack_content_requests:
  "requests (pack_content B d pc n zip_arg) =
     image_requests B (clean (quirks d) n) @
     bgImageURLs (outerHTML B (pageContent (pack_content B d pc n zip_arg))) @
     stylesheet_requests B
       (update_at (\<lambda>x. pageContent (pack_content B d pc n zip_arg)) pc (documentElement d))"
proof -
  define st0 where "st0 = initial_state (clean (quirks d) n) zip_arg"
  define st1 where "st1 = download_images B st0"
  define st2 where "st2 = download_backgrounds B st1"
  have 1: "requests st1 = image_requests B (clean (quirks d) n)"
    unfolding st1_def download_images_def
    by (simp add: img_loop_requests distinct_querySelectorAll st0_def initial_state_fields
          image_requests_def)
  have 2: "requests st2 = requests st1 @ bgImageURLs (outerHTML B (pageContent st1))"
    "pageContent st2 = pageContent st1"
    by (simp_all add: st2_def download_backgrounds_fields)
  show ?thesis
    using 1 2
    by (simp add: pack_content_def Let_def download_stylesheets_fields stylesheet_requests_def
          st0_def [symmetric] st1_def [symmetric] st2_def [symmetric])
qed

lemma pack_content_map:
  assumes "u \<in> set (bgImageURLs (outerHTML B (pageContent (pack_content B d pc n zip_arg))))"
  shows "case fetch_blob B u of
           Inl e \<Rightarrow> url2pathMap (pack_content B d pc n zip_arg) u = None
         | Inr b \<Rightarrow>
             (\<exists>k. url2pathMap (pack_content B d pc n zip_arg) u = Some (blob_path B k b) \<and>
                  (unique_names B \<longrightarrow>
                     jszip (pack_content B d pc n zip_arg) (blob_path B k b) = Some (File (BlobData b))))"
proof -
  define st0 where "st0 = initial_state (clean (quirks d) n) zip_arg"
  define st1 where "st1 = download_images B st0"
  define st1' where "st1' = st1\<lparr>pageContentHTML := outerHTML B (pageContent st1)\<rparr>"
  define us where "us = bgImageURLs (outerHTML B (pageContent st1))"
  define st2' where "st2' = fold (bg_step B) us st1'"
  define st2 where "st2 = download_backgrounds B st1"
  define st3 where "st3 = download_stylesheets B (update_at (\<lambda>x. pageContent st2) pc (documentElement d)) st2"
  define st where "st = pack_content B d pc n zip_arg"
  have st: "st = st3\<lparr>jszip := zip_file B (jszip st3) ''index.html''
      (TextData (indexHTML (localLinks st3) (pageContentHTML st3)))\<rparr>"
    by (simp add: st_def pack_content_def Let_def st0_def st1_def st2_def st3_def)
  have st2: "url2pathMap st2 = url2pathMap st2'" "jszip st2 = jszip st2'" "draws st2 = draws st2'"
    by (simp_all add: st2_def download_backgrounds_def Let_def st2'_def us_def st1'_def)
  have map: "url2pathMap st = url2pathMap st2'"
    by (simp add: st st3_def download_stylesheets_fields st2)
  have "pageContent st = pageContent st1"
    by (simp add: st_def st1_def st0_def pack_content_fields)
  with assms have u: "u \<in> set us"
    by (simp add: us_def st_def)
  have dist: "distinct us"
    by (simp add: us_def distinct_bgImageURLs)
  have empty: "url2pathMap st1' u = None"
  proof -
    have "url2pathMap (fold (img_step B) ps s) = url2pathMap s" for ps s
      by (rule fold_same) (simp add: img_step_def Let_def split: sum.splits)
    then show ?thesis
      by (simp add: st1'_def st1_def download_images_def st0_def initial_state_fields)
  qed
  note loop = bg_loop [OF dist u, of B st1', folded st2'_def]
  show ?thesis
  proof (cases "fetch_blob B u")
    case (Inl e)
    with loop empty map show ?thesis
      by (simp add: st_def [symmetric])
  next
    case (Inr b)
    with loop obtain k where k: "k < draws st2'" "url2pathMap st2' u = Some (blob_path B k b)"
      "unique_names B \<longrightarrow> jszip st2' (blob_path B k b) = Some (File (BlobData b))"
      by auto
    have "jszip st (blob_path B k b) = Some (File (BlobData b))" if names: "unique_names B"
    proof -
      from k(3) names have 2: "jszip st2 (blob_path B k b) = Some (File (BlobData b))"
        by (simp add: st2)
      have nd: "\<not> drawn_from B (draws st2) (blob_path B k b)"
        unfolding blob_path_def using names k(1) by (intro not_drawn_later) (simp_all add: st2)
      from 2 nd have "jszip st3 (blob_path B k b) = Some (File (BlobData b))"
        unfolding st3_def by (rule download_stylesheets_keeps)
      then show ?thesis
        by (simp add: st zip_file_keep blob_path_def asset_path_not_index)
    qed
    with k(2) map Inr show ?thesis
      by (auto simp: st_def [symmetric])
  qed
qed

text \<open>
Every path of \<^verbatim>\<open>url2pathMap\<close> is the name of a file of the archive.
\<close>

lemma fold_invariant:
  "P s \<Longrightarrow> (\<And>x s. P s \<Longrightarrow> P (step x s)) \<Longrightarrow> P (fold step xs s)"
  by (induction xs arbitrary: s) simp_all

lemma img_step_mapped: "mapped_files st \<Longrightarrow> mapped_files (img_step B p st)"
  by (auto simp: mapped_files_def img_step_def Let_def zip_file_is_file split: sum.splits)

lemma bg_step_mapped: "mapped_files st \<Longrightarrow> mapped_files (bg_step B u st)"
  by (auto simp: mapped_files_def bg_step_def Let_def zip_file_is_file zip_file_is_file_same
           split: sum.splits)

lemma css_step_mapped: "mapped_files st \<Longrightarrow> mapped_files (css_step B l st)"
  by (auto simp: mapped_files_def css_step_def Let_def zip_file_is_file split: sum.splits)

lemma pack_content_mapped:
  assumes "url2pathMap (pack_content B d pc n zip_arg) u = Some path"
  shows "\<exists>c. jszip (pack_content B d pc n zip_arg) path = Some (File c)"
proof -
  define st0 where "st0 = initial_state (clean (quirks d) n) zip_arg"
  define st1 where "st1 = download_images B st0"
  define st2 where "st2 = download_backgrounds B st1"
  define st3 where "st3 = download_stylesheets B (update_at (\<lambda>x. pageContent st2) pc (documentElement d)) st2"
  have "mapped_files st0"
    by (simp add: mapped_files_def st0_def initial_state_fields)
  then have 1: "mapped_files st1"
    unfolding st1_def download_images_def
    by (rule fold_invariant [where P = mapped_files]) (rule img_step_mapped)
  have "mapped_files (st1\<lparr>pageContentHTML := outerHTML B (pageContent st1)\<rparr>)"
    using 1 by (simp add: mapped_files_def)
  then have "mapped_files (fold (bg_step B) (bgImageURLs (outerHTML B (pageContent st1)))
      (st1\<lparr>pageContentHTML := outerHTML B (pageContent st1)\<rparr>))"
    by (rule fold_invariant [where P = mapped_files]) (rule bg_step_mapped)
  then have "mapped_files st2"
    by (simp add: st2_def download_backgrounds_def Let_def mapped_files_def)
  then have "mapped_files st3"
    unfolding st3_def download_stylesheets_def
    by (rule fold_invariant [where P = mapped_files]) (rule css_step_mapped)
  then have "mapped_files (pack_content B d pc n zip_arg)"
    by (simp add: pack_content_def Let_def st0_def st1_def st2_def st3_def mapped_files_def
          zip_file_is_file)
  with assms show ?thesis
    by (auto simp: mapped_files_def is_file_def)
qed

subsection \<open>The archive that is passed in\<close>

lemma fold_related:
  "(\<And>x a b. R a b \<Longrightarrow> R (step x a) (step x b)) \<Longrightarrow> R a b \<Longrightarrow> R (fold step xs a) (fold step xs b)"
  by (induction xs arbitrary: a b) simp_all

lemma img_step_same: "same_but_zip a b \<Longrightarrow> same_but_zip (img_step B p a) (img_step B p b)"
  by (auto simp: same_but_zip_def img_step_def Let_def split: sum.splits)

lemma bg_step_same: "same_but_zip a b \<Longrightarrow> same_but_zip (bg_step B u a) (bg_step B u b)"
  by (auto simp: same_but_zip_def bg_step_def Let_def split: sum.splits)

lemma css_step_same: "same_but_zip a b \<Longrightarrow> same_but_zip (css_step B l a) (css_step B l b)"
  by (auto simp: same_but_zip_def css_step_def Let_def split: sum.splits)

lemma download_images_same:
  assumes "same_but_zip a b"
  shows "same_but_zip (download_images B a) (download_images B b)"
proof -
  from assms have "pageContent a = pageContent b" by (simp add: same_but_zip_def)
  then show ?thesis
    unfolding download_images_def using assms
    by (simp add: fold_related [where R = same_but_zip] img_step_same)
qed

lemma download_backgrounds_same:
  assumes "same_but_zip a b"
  shows "same_but_zip (download_backgrounds B a) (download_backgrounds B b)"
proof -
  let ?a = "a\<lparr>pageContentHTML := outerHTML B (pageContent a)\<rparr>"
  let ?b = "b\<lparr>pageContentHTML := outerHTML B (pageContent b)\<rparr>"
  from assms have ab: "same_but_zip ?a ?b" and eq: "pageContentHTML ?a = pageContentHTML ?b"
    by (simp_all add: same_but_zip_def)
  have "same_but_zip (fold (bg_step B) (bgImageURLs (pageContentHTML ?a)) ?a)
          (fold (bg_step B) (bgImageURLs (pageContentHTML ?a)) ?b)"
    using ab by (intro fold_related [where R = same_but_zip] bg_step_same)
  then show ?thesis
    unfolding download_backgrounds_def Let_def eq [symmetric]
    by (simp add: same_but_zip_def)
qed

lemma download_stylesheets_same:
  "same_but_zip a b \<Longrightarrow> same_but_zip (download_stylesheets B d a) (download_stylesheets B d b)"
  unfolding download_stylesheets_def
  by (intro fold_related [where R = same_but_zip] css_step_same)

lemma pack_content_same:
  "same_but_zip (pack_content B d pc n zip_arg) (pack_content B d pc n zip_arg')"
proof -
  define a1 where "a1 = download_images B (initial_state (clean (quirks d) n) zip_arg)"
  define b1 where "b1 = download_images B (initial_state (clean (quirks d) n) zip_arg')"
  define a2 where "a2 = download_backgrounds B a1"
  define b2 where "b2 = download_backgrounds B b1"
  have "same_but_zip (initial_state (clean (quirks d) n) zip_arg) (initial_state (clean (quirks d) n) zip_arg')"
    by (simp add: same_but_zip_def initial_state_def)
  then have "same_but_zip a1 b1"
    unfolding a1_def b1_def by (rule download_images_same)
  then have 2: "same_but_zip a2 b2"
    unfolding a2_def b2_def by (rule download_backgrounds_same)
  then have eq: "pageContent a2 = pageContent b2"
    by (simp add: same_but_zip_def)
  from 2 have "same_but_zip (download_stylesheets B (update_at (\<lambda>x. pageContent a2) pc (documentElement d)) a2)
      (download_stylesheets B (update_at (\<lambda>x. pageContent a2) pc (documentElement d)) b2)"
    by (rule download_stylesheets_same)
  then show ?thesis
    unfolding pack_content_def Let_def a1_def [symmetric] b1_def [symmetric]
      a2_def [symmetric] b2_def [symmetric] eq [symmetric]
    by (simp add: same_but_zip_def)
qed

subsection \<open>The first page in the example browser\<close>

lemma replicate_append_cancel:
  "replicate m a @ b # xs = replicate n a @ b # ys \<Longrightarrow> a \<noteq> b \<Longrightarrow> m = n"
proof (induction m arbitrary: n)
  case 0
  then show ?case by (cases n) auto
next
  case (Suc m)
  then show ?case by (cases n) auto
qed

lemma ex_unique_names: "unique_names ex_browser"
  unfolding unique_names_def
proof (intro allI impI)
  fix j k :: nat and e e' :: "string option"
  assume "j \<noteq> k"
  show "asset_path (uuid ex_browser j) e \<noteq> asset_path (uuid ex_browser k) e'"
  proof
    assume "asset_path (uuid ex_browser j) e = asset_path (uuid ex_browser k) e'"
    then have "replicate (Suc j) (CHR ''1'') @ CHR ''.'' # (case e of None \<Rightarrow> ''null'' | Some x \<Rightarrow> x) =
               replicate (Suc k) (CHR ''1'') @ CHR ''.'' # (case e' of None \<Rightarrow> ''null'' | Some x \<Rightarrow> x)"
      by (simp add: asset_path_def ex_uuid_def)
    then have "Suc j = Suc k"
      by (rule replicate_append_cancel) simp
    with \<open>j \<noteq> k\<close> show False by simp
  qed
qed

lemma ex_found: "page_content_of (parseFromString ex_browser ex_html) = Some (ex_handle, ex_content)"
  by (simp add: page_content_of_def document_querySelector_def ex_document_def ex_root_def has_id_def
        getAttribute_def ex_content_def ex_handle_def)

lemma clean_ex_content: "clean (quirks ex_document) ex_content = ex_clean"
  by (simp add: clean_def remove_style_def remove_first_def querySelector_def ex_content_def
        has_id_def getAttribute_def removeAttribute_def has_tag_def ex_clean_def ex_document_def)

lemma ex_imgs: "querySelectorAll img_with_src ex_clean = [[0, 0], [0, 1], [0, 2]]"
  by (simp add: querySelectorAll_def ex_clean_def img_with_src_def has_tag_def getAttribute_def)

lemma ex_blobs:
  "image_blob ex_browser ex_clean [0, 0] = Some (ex_png ''one'')"
  "image_blob ex_browser ex_clean [0, 1] = None"
  "image_blob ex_browser ex_clean [0, 2] = Some (ex_png ''background'')"
  by (simp_all add: image_blob_def ex_clean_def getAttribute_def url_property_def)

lemma bg_scan_plain: "c \<noteq> CHR ''b'' \<Longrightarrow> bg_scan (c # cs) = Plain c # bg_scan cs"
  by (simp add: match_bg_def match_head_def strip_prefix_def)

lemma ex_images_done:
  "pageContent (download_images ex_browser (initial_state ex_clean zip_arg)) = ex_packed"
  "draws (download_images ex_browser (initial_state ex_clean zip_arg)) = 2"
  "url2pathMap (download_images ex_browser (initial_state ex_clean zip_arg)) = Map.empty"
  "localLinks (download_images ex_browser (initial_state ex_clean zip_arg)) = []"
proof -
  have "download_images ex_browser (initial_state ex_clean zip_arg) =
          fold (img_step ex_browser) [[0, 0], [0, 1], [0, 2]] (initial_state ex_clean zip_arg)"
    by (simp only: download_images_def initial_state_fields ex_imgs)
  then show
    "pageContent (download_images ex_browser (initial_state ex_clean zip_arg)) = ex_packed"
    "draws (download_images ex_browser (initial_state ex_clean zip_arg)) = 2"
    "url2pathMap (download_images ex_browser (initial_state ex_clean zip_arg)) = Map.empty"
    "localLinks (download_images ex_browser (initial_state ex_clean zip_arg)) = []"
    by (simp_all add: initial_state_def img_step_def
          url_property_def ex_clean_def getAttribute_def asset_path_def ex_uuid_def ex_png_def
          setAttribute_def ex_packed_def Let_def)
qed

lemma ex_packed_serialized: "ex_outerHTML ex_packed = ex_serialized"
  by (simp add: ex_packed_def ex_serialized_def ex_escape_def)

lemma ex_scan: "bg_scan ex_serialized = ex_segments"
  by (simp add: ex_serialized_def ex_segments_def bg_scan_plain del: bg_scan.simps(2))
     (simp add: match_bg_def match_head_def strip_prefix_def match_url_def match_url_end_def Let_def
        bg_scan_plain)

lemma ex_run:
  "packHTMLAssets ex_browser ex_html zip_arg =
     Inr (pack_content ex_browser ex_document ex_handle ex_content zip_arg)"
  using ex_found by (simp add: packHTMLAssets_def)

lemma ex_urls: "bgImageURLs ex_serialized = [''https://cdn.example/bg.png'', ''//cdn.example/gone.png'']"
  by (simp add: bgImageURLs_def ex_scan ex_segments_def set_add_def)

lemma ex_occurrences:
  "bg_occurrences ex_serialized =
     [''https://cdn.example/bg.png'', ''https://cdn.example/bg.png'', ''//cdn.example/gone.png'']"
  by (simp add: bg_occurrences_def ex_scan ex_segments_def)

lemma ex_backgrounds_done:
  "url2pathMap (download_backgrounds ex_browser
      (download_images ex_browser (initial_state ex_clean zip_arg))) =
     [''https://cdn.example/bg.png'' \<mapsto> ''assets/17000000000000.111.png'']"
  "draws (download_backgrounds ex_browser
      (download_images ex_browser (initial_state ex_clean zip_arg))) = 3"
  "localLinks (download_backgrounds ex_browser
      (download_images ex_browser (initial_state ex_clean zip_arg))) = []"
  by (simp_all add: download_backgrounds_def Let_def ex_images_done ex_packed_serialized ex_urls
        bg_step_def asset_path_def ex_uuid_def ex_png_def eval_nat_numeral)

lemma ex_links:
  "head_links False (update_at (\<lambda>x. ex_packed) ex_handle (documentElement ex_document)) =
     [Element ''link'' [(''rel'', ''stylesheet''), (''href'', ''https://cdn.example/a.css'')] [],
      Element ''link'' [(''rel'', ''StyleSheet''), (''href'', ''https://cdn.example/b.css'')] []]"
  by (simp add: ex_document_def ex_root_def ex_packed_def ex_handle_def rel_stylesheet_def
        ex_same_ignoring_case)

lemma ex_stylesheets_done:
  assumes "draws st = 3" and "localLinks st = []"
  shows \<open>localLinks (download_stylesheets ex_browser
           (update_at (\<lambda>x. ex_packed) ex_handle (documentElement ex_document)) st) =
         ''<link rel="stylesheet" href="./assets/17000000000000.1111.css">'' @
         ''<link rel="stylesheet" href="./assets/17000000000000.11111.css">''\<close>
  using assms
  by (simp add: download_stylesheets_def ex_links css_step_def Let_def url_property_def
        getAttribute_def ex_uuid_def eval_nat_numeral)

lemma ex_result_content:
  "pageContent (pack_content ex_browser ex_document ex_handle ex_content zip_arg) = ex_packed"
  "outerHTML ex_browser (pageContent (pack_content ex_browser ex_document ex_handle ex_content zip_arg)) =
     ex_serialized"
  "outerHTML ex_browser ex_packed = ex_serialized"
  by (simp_all add: pack_content_fields clean_ex_content ex_images_done ex_packed_serialized)

lemma ex_result_map:
  "url2pathMap (pack_content ex_browser ex_document ex_handle ex_content zip_arg) =
     [''https://cdn.example/bg.png'' \<mapsto> ''assets/17000000000000.111.png'']"
  by (simp add: pack_content_def Let_def download_stylesheets_fields clean_ex_content
        ex_backgrounds_done)

lemma ex_result_links:
  \<open>localLinks (pack_content ex_browser ex_document ex_handle ex_content zip_arg) =
     ''<link rel="stylesheet" href="./assets/17000000000000.1111.css">'' @
     ''<link rel="stylesheet" href="./assets/17000000000000.11111.css">''\<close>
proof -
  let ?st2 = "download_backgrounds ex_browser
      (download_images ex_browser (initial_state ex_clean zip_arg))"
  have "pageContent ?st2 = ex_packed"
    by (simp add: download_backgrounds_fields ex_images_done)
  then have "localLinks (pack_content ex_browser ex_document ex_handle ex_content zip_arg) =
      localLinks (download_stylesheets ex_browser
        (update_at (\<lambda>x. ex_packed) ex_handle (documentElement ex_document)) ?st2)"
    by (simp add: pack_content_def Let_def clean_ex_content)
  also note ex_stylesheets_done [OF ex_backgrounds_done(2,3)]
  finally show ?thesis .
qed

lemma ex_result_index:
  "jszip (pack_content ex_browser ex_document ex_handle ex_content zip_arg) ''index.html'' =
     Some (File (TextData ex_index))"
  unfolding pack_content_index ex_result_content ex_result_map ex_result_links ex_scan
  by (simp add: ex_segments_def ex_index_def index_head_def index_middle_def index_tail_def)

lemma ex_image_requests:
  "image_requests ex_browser (clean (quirks ex_document) ex_content) =
     [''https://cdn.example/1.png'', ''https://cdn.example/2.png'', ''https://cdn.example/bg.png'']"
  unfolding image_requests_def clean_ex_content ex_imgs
  by (simp add: ex_clean_def getAttribute_def url_property_def)

lemma ex_stylesheet_requests:
  "stylesheet_requests ex_browser (update_at (\<lambda>x. ex_packed) ex_handle (documentElement ex_document)) =
     [''https://cdn.example/a.css'', ''https://cdn.example/b.css'']"
  by (simp add: stylesheet_requests_def ex_links url_property_def getAttribute_def)

lemma ex_requests:
  "requests (pack_content ex_browser ex_document ex_handle ex_content zip_arg) =
     [''https://cdn.example/1.png'', ''https://cdn.example/2.png'', ''https://cdn.example/bg.png'',
      ''https://cdn.example/bg.png'', ''//cdn.example/gone.png'',
      ''https://cdn.example/a.css'', ''https://cdn.example/b.css'']"
  using pack_content_requests [of ex_browser ex_document ex_handle ex_content zip_arg]
  by (simp only: ex_result_content ex_urls ex_image_requests ex_stylesheet_requests append.simps)

lemma ex_paths:
  "blob_path ex_browser 0 (ex_png bytes) = ''assets/17000000000000.1.png''"
  "blob_path ex_browser (Suc 0) (ex_png bytes) = ''assets/17000000000000.11.png''"
  by (simp_all add: blob_path_def asset_path_def ex_uuid_def ex_png_def)

lemma ex_first_image:
  "jszip (pack_content ex_browser ex_document ex_handle ex_content zip_arg)
     ''assets/17000000000000.1.png'' = Some (File (BlobData (ex_png ''one'')))"
proof -
  have c: "ex_clean = clean (quirks ex_document) ex_content"
    by (simp add: clean_ex_content)
  have imgs: "[[0, 0], [0, 1], [0, 2]] = querySelectorAll img_with_src ex_clean"
    by (simp add: ex_imgs)
  have fetched: "[[0, 0], [0, 2]] = filter (\<lambda>p. image_blob ex_browser ex_clean p \<noteq> None) [[0, 0], [0, 1], [0, 2]]"
    by (simp only: filter.simps ex_blobs option.distinct simp_thms if_True if_False)
  from pack_content_images(4) [OF c imgs fetched refl, of 0 "ex_png ''one''" ex_handle zip_arg]
  show ?thesis
    by (simp add: ex_blobs ex_unique_names ex_paths)
qed

lemma ex_background_file:
  "jszip (pack_content ex_browser ex_document ex_handle ex_content zip_arg)
     ''assets/17000000000000.111.png'' = Some (File (BlobData (ex_png ''background'')))"
proof -
  have "''https://cdn.example/bg.png'' \<in> set (bgImageURLs (outerHTML ex_browser
      (pageContent (pack_content ex_browser ex_document ex_handle ex_content zip_arg))))"
    by (simp only: ex_result_content ex_urls) simp
  from pack_content_map [OF this] ex_unique_names
  show ?thesis
    by (auto simp: ex_result_map)
qed

lemma ex_previous_fresh:
  "\<forall>k ext. ex_previous (asset_path (uuid ex_browser k) ext) = None"
  by (simp add: ex_previous_def asset_path_def ex_uuid_def)

subsection \<open>The third page in the example browser\<close>

lemma ex_quirks_found:
  "page_content_of (parseFromString ex_browser ex_quirks_html) = Some (ex_handle, ex_upper_content)"
  by (simp add: page_content_of_def document_querySelector_def ex_quirks_document_def ex_upper_root_def
        has_id_def getAttribute_def ex_upper_content_def ex_handle_def ex_same_ignoring_case)

lemma clean_ex_upper_content: "clean (quirks ex_quirks_document) ex_upper_content = ex_upper_clean"
  by (simp add: clean_def remove_style_def remove_first_def querySelector_def ex_upper_content_def
        has_id_def getAttribute_def removeAttribute_def has_tag_def ex_upper_clean_def
        ex_quirks_document_def ex_same_ignoring_case)

lemma ex_upper_imgs: "querySelectorAll img_with_src ex_upper_clean = [[0, 0], [0, 1]]"
  by (simp add: querySelectorAll_def ex_upper_clean_def img_with_src_def has_tag_def getAttribute_def)

lemma ex_upper_blobs:
  "image_blob ex_browser ex_upper_clean [0, 0] = Some (ex_png ''background'')"
  "image_blob ex_browser ex_upper_clean [0, 1] = Some (ex_png ''one'')"
  by (simp_all add: image_blob_def ex_upper_clean_def getAttribute_def url_property_def)

lemma ex_quirks_run:
  "packHTMLAssets ex_browser ex_quirks_html zip_arg =
     Inr (pack_content ex_browser ex_quirks_document ex_handle ex_upper_content zip_arg)"
  using ex_quirks_found by (simp add: packHTMLAssets_def)

lemma ex_upper_first_image:
  "jszip (pack_content ex_browser ex_quirks_document ex_handle ex_upper_content zip_arg)
     ''assets/17000000000000.1.png'' = Some (File (BlobData (ex_png ''background'')))"
proof -
  have c: "ex_upper_clean = clean (quirks ex_quirks_document) ex_upper_content"
    by (simp add: clean_ex_upper_content)
  have imgs: "[[0, 0], [0, 1]] = querySelectorAll img_with_src ex_upper_clean"
    by (simp add: ex_upper_imgs)
  have fetched: "[[0, 0], [0, 1]] = filter (\<lambda>p. image_blob ex_browser ex_upper_clean p \<noteq> None) [[0, 0], [0, 1]]"
    by (simp only: filter.simps ex_upper_blobs option.distinct simp_thms if_True if_False)
  from pack_content_images(4) [OF c imgs fetched refl, of 0 "ex_png ''background''" ex_handle zip_arg]
  show ?thesis
    by (simp add: ex_upper_blobs ex_unique_names ex_paths)
qed

subsection \<open>The third page when every name drawn is the same\<close>

lemma ex_folders_all:
  "parent_folders ex_browser = (\<lambda>name. if take 7 name = ''assets/'' then [''assets/''] else [])"
  by (simp add: ex_browser_def)

lemma ex_clash_run:
  "packHTMLAssets ex_clash_browser ex_quirks_html zip_arg =
     Inr (pack_content ex_clash_browser ex_quirks_document ex_handle ex_upper_content zip_arg)"
  using ex_quirks_found by (simp add: packHTMLAssets_def)

lemma ex_clash_images:
  "download_images ex_clash_browser (initial_state ex_upper_clean None) =
     \<lparr>pageContent = ex_upper_packed,
      jszip = [''assets/'' \<mapsto> Dir,
               ''assets/17000000000000.5.png'' \<mapsto> File (BlobData (ex_png ''one''))],
      draws = 2,
      requests = [''https://cdn.example/bg.png'', ''https://cdn.example/1.png''],
      console = [], url2pathMap = Map.empty, pageContentHTML = [], localLinks = []\<rparr>"
proof -
  have eq: "download_images ex_clash_browser (initial_state ex_upper_clean None) =
          fold (img_step ex_clash_browser) [[0, 0], [0, 1]] (initial_state ex_upper_clean None)"
    by (simp only: download_images_def initial_state_fields ex_upper_imgs)
  show ?thesis
    unfolding eq
    by (simp add: initial_state_def img_step_def zip_folder_def folderAdd_def zip_file_def
          url_property_def ex_upper_clean_def getAttribute_def asset_path_def ex_clash_uuid_def
          setAttribute_def ex_upper_packed_def Let_def ex_png_def ex_folders_all)
qed

lemma ex_upper_packed_serialized: "ex_outerHTML ex_upper_packed = ex_upper_serialized"
  by (simp add: ex_upper_packed_def ex_upper_serialized_def ex_escape_def)

lemma ex_upper_scan: "bg_scan ex_upper_serialized = map Plain ex_upper_serialized"
  by (simp add: ex_upper_serialized_def bg_scan_plain del: bg_scan.simps(2))

lemma ex_clash_backgrounds:
  "download_backgrounds ex_clash_browser
     (download_images ex_clash_browser (initial_state ex_upper_clean None)) =
     \<lparr>pageContent = ex_upper_packed,
      jszip = [''assets/'' \<mapsto> Dir,
               ''assets/17000000000000.5.png'' \<mapsto> File (BlobData (ex_png ''one''))],
      draws = 2,
      requests = [''https://cdn.example/bg.png'', ''https://cdn.example/1.png''],
      console = [], url2pathMap = Map.empty, pageContentHTML = ex_upper_serialized,
      localLinks = []\<rparr>"
proof -
  have "concat (map (\<lambda>g. case g of Plain c \<Rightarrow> [c] | BgRef p1 u p3 \<Rightarrow> f p1 u p3) (map Plain s)) = s"
    for f :: "string \<Rightarrow> string \<Rightarrow> string \<Rightarrow> string" and s
    by (induction s) simp_all
  moreover have "concat (map (\<lambda>g. case g of Plain c \<Rightarrow> [] | BgRef p1 u p3 \<Rightarrow> f p1 u p3) (map Plain s)) = []"
    for f :: "string \<Rightarrow> string \<Rightarrow> string \<Rightarrow> log_entry list" and s
    by (induction s) simp_all
  moreover have "fold (\<lambda>g urls. case g of Plain c \<Rightarrow> urls | BgRef p1 u p3 \<Rightarrow> set_add u urls) (map Plain s) us = us"
    for s us
    by (induction s) simp_all
  ultimately show ?thesis
    by (simp add: download_backgrounds_def Let_def ex_clash_images ex_upper_packed_serialized
          bgImageURLs_def ex_upper_scan replaceAll_bg_def lost_warnings_def)
qed

lemma ex_clash_result:
  "pack_content ex_clash_browser ex_quirks_document ex_handle ex_upper_content None =
     \<lparr>pageContent = ex_upper_packed,
      jszip = [''assets/'' \<mapsto> Dir,
               ''assets/17000000000000.5.png'' \<mapsto> File (BlobData (ex_png ''one'')),
               ''index.html'' \<mapsto> File (TextData ex_clash_index)],
      draws = 2,
      requests = [''https://cdn.example/bg.png'', ''https://cdn.example/1.png''],
      console = [], url2pathMap = Map.empty, pageContentHTML = ex_upper_serialized,
      localLinks = []\<rparr>"
proof -
  have "head_links False (update_at (\<lambda>x. ex_upper_packed) ex_handle (documentElement ex_quirks_document)) = []"
    by (simp add: ex_quirks_document_def ex_upper_root_def ex_handle_def ex_upper_packed_def)
  moreover have "indexHTML [] ex_upper_serialized = ex_clash_index"
    by (simp add: indexHTML_def index_head_def index_middle_def index_tail_def ex_clash_index_def
          ex_upper_serialized_def)
  ultimately show ?thesis
    by (simp add: pack_content_def Let_def clean_ex_upper_content ex_clash_backgrounds
          download_stylesheets_def zip_file_def ex_folders_all)
qed

section \<open>Properties of the asset packager\<close>

subsection \<open>The missing container\<close>

text \<open>
  Claim C5. For an HTML text whose document has no element that the selector
  \<^verbatim>\<open>#page-content\<close> matches (no element whose id is \<^verbatim>\<open>page-content\<close>, in whatever case
  of its letters when the document is in quirks mode) the packager fails, with the
  TypeError of the read on \<^verbatim>\<open>null\<close>: it returns no archive.
\<close>

theorem packHTMLAssets_without_container:
  assumes "\<not> list_ex (has_id (quirks (parseFromString B html)) ''page-content'')
               (nodes (documentElement (parseFromString B html)))"
  shows "packHTMLAssets B html zip_arg = Inl TypeError"
  using assms by (simp add: packHTMLAssets_def page_content_of_none [symmetric])

text \<open>
  The page without the container, and the page with a doctype whose container has the id
  \<^verbatim>\<open>PAGE-CONTENT\<close>, which is not matched there. The same page without the doctype is
  packed.
\<close>

theorem packHTMLAssets_without_container_witness:
  "packHTMLAssets ex_browser ex_blocked_html None = Inl TypeError \<and>
   packHTMLAssets ex_browser ex_strict_html None = Inl TypeError \<and>
   packHTMLAssets ex_browser ex_quirks_html None \<noteq> Inl TypeError"
  using packHTMLAssets_without_container [of ex_browser ex_blocked_html None]
    packHTMLAssets_without_container [of ex_browser ex_strict_html None]
    ex_quirks_found
  by (simp add: ex_nodes_blocked ex_nodes_strict packHTMLAssets_def)

subsection \<open>The images\<close>




subsection \<open>The background images\<close>




subsection \<open>An archive passed in\<close>

text \<open>
  Claim C10, as stated, fails when the call draws a name that an entry of the archive
  bears already, which nothing in the code excludes. When the third page and then the
  first are packed into one archive, and the second call draws the name the first has
  drawn, the image that the first call has stored under \<^verbatim>\<open>assets/\<close> is replaced by an
  image of the second.
\<close>

theorem earlier_image_replaced:
  "case packHTMLAssets ex_browser ex_quirks_html None of
     Inl e \<Rightarrow> False
   | Inr earlier \<Rightarrow>
       (case packHTMLAssets ex_browser ex_html (Some (jszip earlier)) of
          Inl e \<Rightarrow> False
        | Inr st \<Rightarrow>
            jszip earlier ''assets/17000000000000.1.png'' =
              Some (File (BlobData (ex_png ''background''))) \<and>
            jszip st ''assets/17000000000000.1.png'' = Some (File (BlobData (ex_png ''one''))))"
  by (simp add: ex_quirks_run ex_run ex_first_image ex_upper_first_image)

text \<open>
  Claim C10, amended. When the packager is called with an archive none of whose entries
  bears a name that this call can draw, every entry of that archive but \<^verbatim>\<open>index.html\<close>
  is in the result as it was, and \<^verbatim>\<open>index.html\<close> is the document composed by this
  call: the template around the links and the rewritten content of this call, the very
  entry that the call without an archive produces. An archive being a map from names to
  entries, it has one \<^verbatim>\<open>index.html\<close>.
\<close>

theorem packHTMLAssets_incremental:
  assumes found: "page_content_of (parseFromString B html) = Some (pc, n)"
    and fresh: "\<forall>k ext. previous (asset_path (uuid B k) ext) = None"
  shows "\<exists>st alone.
           packHTMLAssets B html (Some previous) = Inr st \<and>
           packHTMLAssets B html None = Inr alone \<and>
           (\<forall>name e. previous name = Some e \<longrightarrow> name \<noteq> ''index.html'' \<longrightarrow> jszip st name = Some e) \<and>
           jszip st ''index.html'' =
             Some (File (TextData
               (index_head @ localLinks st @ index_middle @
                concat (map (\<lambda>g. case g of
                                    Plain a \<Rightarrow> [a]
                                  | BgRef p1 u p3 \<Rightarrow>
                                      p1 @ (case url2pathMap st u of
                                              Some path \<Rightarrow> ''./'' @ path
                                            | None \<Rightarrow> u) @ p3)
                            (bg_scan (outerHTML B (pageContent st)))) @
                index_tail))) \<and>
           jszip st ''index.html'' = jszip alone ''index.html''"
proof -
  define st where "st = pack_content B (parseFromString B html) pc n (Some previous)"
  define alone where "alone = pack_content B (parseFromString B html) pc n None"
  have run: "packHTMLAssets B html (Some previous) = Inr st" "packHTMLAssets B html None = Inr alone"
    using found by (simp_all add: packHTMLAssets_def st_def alone_def)
  have kept: "jszip st name = Some e" if "previous name = Some e" "name \<noteq> ''index.html''" for name e
  proof -
    let ?st0 = "initial_state (clean (quirks (parseFromString B html)) n) (Some previous)"
    from that(1) have 0: "jszip ?st0 name = Some e"
      by (simp add: initial_state_def zip_folder_def folderAdd_keep)
    from that(1) fresh have nd: "\<not> drawn_from B 0 name"
      by (auto simp: drawn_from_def)
    then have nd0: "\<not> drawn_from B (draws ?st0) name"
      by (simp add: initial_state_fields)
    from 0 nd0 have 1: "jszip (download_images B ?st0) name = Some e"
      by (rule download_images_keeps)
    from nd have "\<not> drawn_from B (draws (download_images B ?st0)) name"
      by (blast intro: drawn_from_mono)
    with 1 show ?thesis
      unfolding st_def using that(2) by (rule pack_content_keeps)
  qed
  note index = pack_content_index [of B "parseFromString B html" pc n "Some previous", folded st_def]
  have "same_but_zip st alone"
    unfolding st_def alone_def by (rule pack_content_same)
  then have "localLinks st = localLinks alone" "pageContentHTML st = pageContentHTML alone"
    by (simp_all add: same_but_zip_def)
  then have "jszip st ''index.html'' = jszip alone ''index.html''"
    by (simp add: alone_def st_def pack_content_fields(3))
  with run kept index show ?thesis by blast
qed

text \<open>
  The first page packed into the archive of an earlier article: the earlier image and
  the folder are kept, and the earlier \<^verbatim>\<open>index.html\<close> has given way to \<open>ex_index\<close>.
\<close>

theorem packHTMLAssets_incremental_witness:
  "\<exists>st alone.
     packHTMLAssets ex_browser ex_html (Some ex_previous) = Inr st \<and>
     packHTMLAssets ex_browser ex_html None = Inr alone \<and>
     jszip st ''assets/16999999999990.5.png'' = Some (File (BlobData (ex_png ''earlier''))) \<and>
     jszip st ''assets/'' = Some Dir \<and>
     ex_previous ''index.html'' = Some (File (TextData ''<!DOCTYPE html>earlier'')) \<and>
     jszip st ''index.html'' = Some (File (TextData ex_index)) \<and>
     jszip alone ''index.html'' = Some (File (TextData ex_index))"
proof -
  from packHTMLAssets_incremental [OF ex_found ex_previous_fresh]
  obtain st alone where run: "packHTMLAssets ex_browser ex_html (Some ex_previous) = Inr st"
    "packHTMLAssets ex_browser ex_html None = Inr alone"
    and kept: "\<forall>name e. ex_previous name = Some e \<longrightarrow> name \<noteq> ''index.html'' \<longrightarrow> jszip st name = Some e"
    and index: "jszip st ''index.html'' = jszip alone ''index.html''"
    by blast
  have "ex_previous ''assets/16999999999990.5.png'' = Some (File (BlobData (ex_png ''earlier'')))"
    by (simp add: ex_previous_def)
  with kept have 1: "jszip st ''assets/16999999999990.5.png'' = Some (File (BlobData (ex_png ''earlier'')))"
    by simp
  have "ex_previous ''assets/'' = Some Dir"
    by (simp add: ex_previous_def)
  with kept have 2: "jszip st ''assets/'' = Some Dir"
    by simp
  have 3: "ex_previous ''index.html'' = Some (File (TextData ''<!DOCTYPE html>earlier''))"
    by (simp add: ex_previous_def)
  from run(1) have "st = pack_content ex_browser ex_document ex_handle ex_content (Some ex_previous)"
    by (simp add: ex_run)
  then have 4: "jszip st ''index.html'' = Some (File (TextData ex_index))"
    by (simp add: ex_result_index)
  with index have 5: "jszip alone ''index.html'' = Some (File (TextData ex_index))"
    by simp
  from run 1 2 3 4 5 show ?thesis by blast
qed

end
